theory Spec2Isabelle
  imports Complex_Main
begin

section \<open>The DingTalk Stable Diffusion bot (dingtalksd.py)\<close>

text \<open>
  A shallow embedding of class \<open>StableDiffusionBot\<close>. Library objects the source calls
  (PIL images, \<open>str.strip\<close>, \<open>round\<close> and \<open>%s\<close> on a float, the bounded
  \<open>multiprocessing.Queue\<close>) are modelled by their documented behaviour. The collaborators
  whose code is outside the repository (the diffusion pipeline, the DingTalk client, the clock)
  are parameters: each takes the state of the outside world and returns its result, or the
  exception it raises, with the new state.
\<close>

subsection \<open>Images (PIL)\<close>

type_synonym rgb = "nat \<times> nat \<times> nat"

record image =
  width :: nat
  height :: nat
  pixel :: "nat \<Rightarrow> nat \<Rightarrow> rgb"

text \<open>\<open>Image.new('RGB', size)\<close>: every pixel black.\<close>

definition Image_new :: "nat \<times> nat \<Rightarrow> image" where
  "Image_new size2 = \<lparr>width = fst size2, height = snd size2, pixel = (\<lambda>x y. (0, 0, 0))\<rparr>"

text \<open>
  \<open>canvas.paste(im, (x0, y0))\<close>: the region of the size of \<open>im\<close> whose upper left corner
  is \<open>(x0, y0)\<close> is overwritten, clipped to the canvas; the canvas keeps its size.
\<close>

definition paste :: "image \<Rightarrow> image \<Rightarrow> nat \<times> nat \<Rightarrow> image" where
  "paste canvas im box =
     canvas\<lparr>pixel := (\<lambda>x y.
        if fst box \<le> x \<and> x < fst box + width im \<and> x < width canvas \<and>
           snd box \<le> y \<and> y < snd box + height im \<and> y < height canvas
        then pixel im (x - fst box) (y - snd box)
        else pixel canvas x y)\<rparr>"

datatype image_format = PNG | JPEG

subsection \<open>Strings\<close>

text \<open>
  A Python \<open>str\<close> is modelled over the code points U+0000 to U+00FF, one \<open>char\<close> each.
  \<open>str.isspace\<close> holds of these code points in that range.
\<close>

definition whitespace :: "char list" where
  "whitespace = [CHR 0x09, CHR 0x0A, CHR 0x0B, CHR 0x0C, CHR 0x0D,
                 CHR 0x1C, CHR 0x1D, CHR 0x1E, CHR 0x1F, CHR 0x20, CHR 0x85, CHR 0xA0]"

definition isspace :: "char \<Rightarrow> bool" where
  "isspace ch = (ch \<in> set whitespace)"

definition lstrip :: "string \<Rightarrow> string" where
  "lstrip s = dropWhile isspace s"

definition rstrip :: "string \<Rightarrow> string" where
  "rstrip s = rev (dropWhile isspace (rev s))"

definition strip :: "string \<Rightarrow> string" where
  "strip s = rstrip (lstrip s)"

definition nl :: string where
  "nl = [CHR 0x0A]"

subsection \<open>Rendering the elapsed time: \<open>'%s' % round(x, 3)\<close>\<close>

definition digit :: "nat \<Rightarrow> char" where
  "digit d = ''0123456789'' ! d"

fun str_nat :: "nat \<Rightarrow> string" where
  "str_nat n = (if n < 10 then [digit n] else str_nat (n div 10) @ [digit (n mod 10)])"

declare str_nat.simps [simp del]

text \<open>
  \<open>round(x, 3)\<close> of a float \<open>x\<close> (a rational): the nearest multiple of 1/1000 to the exact
  value, a tie going to the even multiple. The result is given as the count of thousandths.
\<close>

definition round3 :: "rat \<Rightarrow> int" where
  "round3 x =
     (let s = x * 1000; f = \<lfloor>s\<rfloor>; d = s - of_int f
      in if d < 1 / 2 then f else if 1 / 2 < d then f + 1 else if even f then f else f + 1)"

text \<open>
  \<open>str\<close> of the float nearest to \<open>k / 1000\<close>: the shortest decimal that reads back as the
  same float. For \<open>k\<close> of at most 15 digits this is \<open>k / 1000\<close> itself in positional
  notation, with the trailing zeros of the fraction dropped but one digit always kept.
\<close>

definition frac_digits :: "nat \<Rightarrow> string" where
  "frac_digits r =
     (if r mod 1000 = 0 then [digit 0]
      else if r mod 100 = 0 then [digit (r div 100 mod 10)]
      else if r mod 10 = 0 then [digit (r div 100 mod 10), digit (r div 10 mod 10)]
      else [digit (r div 100 mod 10), digit (r div 10 mod 10), digit (r mod 10)])"

definition str_thousandths :: "nat \<Rightarrow> string" where
  "str_thousandths k = str_nat (k div 1000) @ ''.'' @ frac_digits (k mod 1000)"

text \<open>
  The text that \<open>%s\<close> gives for \<open>round(x, 3)\<close>. A negative \<open>x\<close> (the clock was set
  back during the generation) keeps its sign, also when it rounds to zero: \<open>round\<close> gives
  \<open>-0.0\<close>, rendered \<open>-0.0\<close>. From a magnitude of \<open>10^12\<close> on (floats too coarse for
  thousandths, then the exponent notation) the rendering is not modelled and is left to the
  parameter \<open>other\<close>.
\<close>

definition str_round3 :: "(rat \<Rightarrow> string) \<Rightarrow> rat \<Rightarrow> string" where
  "str_round3 other x =
     (if \<bar>x\<bar> < 10 ^ 12
      then (if x < 0 then ''-'' else []) @ str_thousandths (nat \<bar>round3 x\<bar>)
      else other x)"

text \<open>The number of characters after the decimal point of a rendered number.\<close>

definition decimal_digits :: "string \<Rightarrow> nat" where
  "decimal_digits s = length (tl (dropWhile (\<lambda>ch. ch \<noteq> CHR ''.'') s))"

subsection \<open>Messages, exceptions and effects\<close>

record text_content =
  content :: "string option"

record chatbot_message =
  sender_id :: string
  conversation_id :: string
  msg_text :: "text_content option"

text \<open>
  Instances of \<open>Exception\<close>, the ones an \<open>except Exception\<close> clause catches. Reading an
  attribute of \<open>None\<close> raises \<open>AttributeError\<close>, calling \<open>None\<close> raises \<open>TypeError\<close>,
  indexing past the end of a list raises \<open>IndexError\<close>; \<open>queue.Full\<close> is the bounded
  queue's; anything a collaborator raises is \<open>Exception\<close> with its message.
\<close>

datatype exn = AttributeError | TypeError | IndexError | Full | Exception string

type_synonym bytes = "nat list"

record pipe_args =
  prompt :: string
  arg_height :: nat
  arg_width :: nat
  num_inference_steps :: "nat option"
  num_images_per_prompt :: "nat option"

datatype level = INFO | ERROR

datatype log_msg =
    Received_incoming_message chatbot_message
  | Get_task chatbot_message
  | Do_sd_process_failed exn
  | Not_enough_images nat
  | Media_id string
  | Reply_image string
  | Do_sd_process

datatype event =
    Logged level log_msg
  | Pipe_created
  | Pipe_called pipe_args
  | Uploaded "bytes option"
  | Replied string string chatbot_message

record 'w world =
  trace :: "event list"
  outside :: 'w

datatype pipe_handle = Pipe_handle

record ('w, 'd) collab =
  from_pretrained :: "'w \<Rightarrow> (exn + pipe_handle) \<times> 'w"
  pipe_run :: "'w \<Rightarrow> pipe_args \<Rightarrow> (exn + image list) \<times> 'w"
  save :: "image \<Rightarrow> image_format \<Rightarrow> bytes"
  time_time :: "'w \<Rightarrow> rat \<times> 'w"
  str_float :: "rat \<Rightarrow> string"
  upload_to_dingtalk :: "'w \<Rightarrow> bytes option \<Rightarrow> (exn + string) \<times> 'w"
  reply_markdown :: "'w \<Rightarrow> string \<Rightarrow> string \<Rightarrow> chatbot_message \<Rightarrow> (exn + string) \<times> 'w"
  from_dict :: "'d \<Rightarrow> exn + chatbot_message"

definition log :: "level \<Rightarrow> log_msg \<Rightarrow> 'w world \<Rightarrow> 'w world" where
  "log lvl m w = w\<lparr>trace := trace w @ [Logged lvl m]\<rparr>"

text \<open>The records of level \<open>ERROR\<close> in a trace, oldest first.\<close>

fun error_records :: "event list \<Rightarrow> log_msg list" where
  "error_records [] = []"
| "error_records (Logged ERROR m # evs) = m # error_records evs"
| "error_records (ev # evs) = error_records evs"

subsection \<open>The bounded queue (\<open>multiprocessing.Queue(maxsize)\<close>)\<close>

record queue =
  maxsize :: nat
  items :: "chatbot_message list"

datatype put_result = Enqueued queue | Waits | Waits_then_Full rat | Raises_Full

text \<open>
  \<open>q.put(x, block, timeout)\<close>. With room the item is appended. Without room: a
  non-blocking put raises \<open>queue.Full\<close>, a blocking put without timeout waits for a free
  slot, a blocking put with a timeout waits that long at most and then raises
  \<open>queue.Full\<close>. A \<open>maxsize\<close> of 0 means no bound.
\<close>

definition queue_put :: "queue \<Rightarrow> chatbot_message \<Rightarrow> bool \<Rightarrow> rat option \<Rightarrow> put_result" where
  "queue_put q x block timeout =
     (if maxsize q = 0 \<or> length (items q) < maxsize q then Enqueued (q\<lparr>items := items q @ [x]\<rparr>)
      else if \<not> block then Raises_Full
      else (case timeout of None \<Rightarrow> Waits | Some t \<Rightarrow> Waits_then_Full t))"

text \<open>\<open>q.get()\<close>: the oldest item; on an empty queue the caller waits (\<open>None\<close>).\<close>

definition queue_get :: "queue \<Rightarrow> (chatbot_message \<times> queue) option" where
  "queue_get q = (case items q of [] \<Rightarrow> None | m # ms \<Rightarrow> Some (m, q\<lparr>items := ms\<rparr>))"

subsection \<open>\<open>StableDiffusionBot\<close>\<close>

record options =
  subprocess :: "bool option"

text \<open>Python truthiness of \<open>options.subprocess\<close>, which is \<open>None\<close>, \<open>True\<close> or \<open>False\<close>.\<close>

definition truthy :: "bool option \<Rightarrow> bool" where
  "truthy b = (b = Some True)"

record bot =
  bot_options :: options
  pipe :: "pipe_handle option"
  enable_four_images :: bool
  task_queue :: queue

definition create_pipe :: "('w, 'd) collab \<Rightarrow> 'w world \<Rightarrow> (exn + pipe_handle) \<times> 'w world" where
  "create_pipe c w =
     (case from_pretrained c (outside w) of
        (r, out) \<Rightarrow> (r, w\<lparr>trace := trace w @ [Pipe_created], outside := out\<rparr>))"

definition init :: "('w, 'd) collab \<Rightarrow> options \<Rightarrow> 'w world \<Rightarrow> (exn + bot) \<times> 'w world" where
  "init c opts w =
     (if \<not> truthy (subprocess opts) then
        (case create_pipe c w of
           (Inl e, w1) \<Rightarrow> (Inl e, w1)
         | (Inr p, w1) \<Rightarrow>
             (Inr \<lparr>bot_options = opts, pipe = Some p, enable_four_images = True,
                   task_queue = \<lparr>maxsize = 128, items = []\<rparr>\<rparr>, w1))
      else
        (Inr \<lparr>bot_options = opts, pipe = None, enable_four_images = True,
              task_queue = \<lparr>maxsize = 128, items = []\<rparr>\<rparr>, w))"

text \<open>\<open>pipe(prompt, ...)\<close>: calling the handle; \<open>self._pipe\<close> may be \<open>None\<close>.\<close>

definition call_pipe ::
  "('w, 'd) collab \<Rightarrow> pipe_handle option \<Rightarrow> pipe_args \<Rightarrow> 'w world \<Rightarrow> (exn + image list) \<times> 'w world" where
  "call_pipe c p args w =
     (case p of
        None \<Rightarrow> (Inl TypeError, w)
      | Some h \<Rightarrow>
          (case pipe_run c (outside w) args of
             (r, out) \<Rightarrow> (r, w\<lparr>trace := trace w @ [Pipe_called args], outside := out\<rparr>)))"

text \<open>\<open>incoming_message.text.content.strip()\<close>\<close>

definition stripped_content :: "chatbot_message \<Rightarrow> exn + string" where
  "stripped_content m =
     (case msg_text m of
        None \<Rightarrow> Inl AttributeError
      | Some t \<Rightarrow> (case content t of None \<Rightarrow> Inl AttributeError | Some s \<Rightarrow> Inr (strip s)))"

definition warmup_args :: "string \<Rightarrow> pipe_args" where
  "warmup_args p = \<lparr>prompt = p, arg_height = 512, arg_width = 512,
                     num_inference_steps = Some 1, num_images_per_prompt = None\<rparr>"

definition one_args :: "string \<Rightarrow> pipe_args" where
  "one_args p = \<lparr>prompt = p, arg_height = 512, arg_width = 512,
                  num_inference_steps = None, num_images_per_prompt = None\<rparr>"

definition four_args :: "string \<Rightarrow> pipe_args" where
  "four_args p = \<lparr>prompt = p, arg_height = 512, arg_width = 512,
                   num_inference_steps = None, num_images_per_prompt = Some 4\<rparr>"

text \<open>The result is the PNG bytes, or \<open>None\<close> where the method returns nothing.\<close>

definition txt2img_one ::
  "('w, 'd) collab \<Rightarrow> pipe_handle option \<Rightarrow> chatbot_message \<Rightarrow> 'w world \<Rightarrow> (exn + bytes option) \<times> 'w world" where
  "txt2img_one c p m w =
     (case stripped_content m of
        Inl e \<Rightarrow> (Inl e, w)
      | Inr pr \<Rightarrow>
          (case call_pipe c p (warmup_args pr) w of
             (Inl e, w1) \<Rightarrow> (Inl e, w1)
           | (Inr warm, w1) \<Rightarrow>
               (case call_pipe c p (one_args pr) w1 of
                  (Inl e, w2) \<Rightarrow> (Inl e, w2)
                | (Inr images, w2) \<Rightarrow>
                    (case images of
                       [] \<Rightarrow> (Inl IndexError, w2)
                     | im # rest \<Rightarrow> (Inr (Some (save c im PNG)), w2)))))"

definition merge_four :: "image list \<Rightarrow> image" where
  "merge_four images =
     paste (paste (paste (paste (Image_new (1024, 1024)) (images ! 0) (0, 0))
                         (images ! 1) (512, 0))
                  (images ! 2) (0, 512))
           (images ! 3) (512, 512)"

definition txt2img_four ::
  "('w, 'd) collab \<Rightarrow> pipe_handle option \<Rightarrow> chatbot_message \<Rightarrow> 'w world \<Rightarrow> (exn + bytes option) \<times> 'w world" where
  "txt2img_four c p m w =
     (case stripped_content m of
        Inl e \<Rightarrow> (Inl e, w)
      | Inr pr \<Rightarrow>
          (case call_pipe c p (warmup_args pr) w of
             (Inl e, w1) \<Rightarrow> (Inl e, w1)
           | (Inr warm, w1) \<Rightarrow>
               (case call_pipe c p (four_args pr) w1 of
                  (Inl e, w2) \<Rightarrow> (Inl e, w2)
                | (Inr images, w2) \<Rightarrow>
                    if length images < 4
                    then (Inr None, log ERROR (Not_enough_images (length images)) w2)
                    else (Inr (Some (save c (merge_four images) PNG)), w2))))"

definition txt2img ::
  "('w, 'd) collab \<Rightarrow> bot \<Rightarrow> pipe_handle option \<Rightarrow> chatbot_message \<Rightarrow> 'w world \<Rightarrow> (exn + bytes option) \<times> 'w world" where
  "txt2img c self p m w =
     (if enable_four_images self then txt2img_four c p m w else txt2img_one c p m w)"

subsection \<open>Delivery\<close>

definition title :: string where
  "title = ''Stable Diffusion txt2img''"

text \<open>The format string of \<open>reply_image\<close> with its three \<open>%s\<close> filled in.\<close>

definition reply_content :: "string \<Rightarrow> string \<Rightarrow> string \<Rightarrow> string" where
  "reply_content prompt_text media_id cost =
     ''#### Prompts: '' @ prompt_text @ nl @ nl @
     ''![image]('' @ media_id @ '')'' @ nl @ nl @
     ''> cost '' @ cost @ ''s'' @ nl @
     ''> '' @ nl @
     ''> Powered by Stable Diffusion'' @ nl @
     ''> '' @ nl @
     ''> via https://github.com/chzealot/dingtalk-stable-diffusion'' @ nl"

definition reply_image ::
  "('w, 'd) collab \<Rightarrow> bytes option \<Rightarrow> rat \<Rightarrow> chatbot_message \<Rightarrow> 'w world \<Rightarrow> (exn + string) \<times> 'w world" where
  "reply_image c image_content elapse_seconds incoming_message w =
     (case upload_to_dingtalk c (outside w) image_content of
        (Inl e, out) \<Rightarrow> (Inl e, w\<lparr>trace := trace w @ [Uploaded image_content], outside := out\<rparr>)
      | (Inr media_id, out) \<Rightarrow>
          (let w1 = log INFO (Media_id media_id)
                      (w\<lparr>trace := trace w @ [Uploaded image_content], outside := out\<rparr>)
           in case stripped_content incoming_message of
                Inl e \<Rightarrow> (Inl e, w1)
              | Inr p \<Rightarrow>
                  (let body = reply_content p media_id (str_round3 (str_float c) elapse_seconds)
                   in case reply_markdown c (outside w1) title body incoming_message of
                        (r, out2) \<Rightarrow>
                          (r, w1\<lparr>trace := trace w1 @ [Replied title body incoming_message],
                                 outside := out2\<rparr>))))"

record complete_task =
  task_image :: "bytes option"
  task_incoming_message :: chatbot_message
  elapse_seconds :: rat

text \<open>
  The argument is \<open>None\<close> for a falsy \<open>complete_task\<close> (\<open>None\<close> or an empty dict), which
  the guard \<open>if not complete_task: return\<close> skips.
\<close>

definition process_complete ::
  "('w, 'd) collab \<Rightarrow> complete_task option \<Rightarrow> 'w world \<Rightarrow> (exn + unit) \<times> 'w world" where
  "process_complete c task w =
     (case task of
        None \<Rightarrow> (Inr (), w)
      | Some t \<Rightarrow>
          (case reply_image c (task_image t) (elapse_seconds t) (task_incoming_message t) w of
             (Inl e, w1) \<Rightarrow> (Inl e, w1)
           | (Inr response, w1) \<Rightarrow> (Inr (), log INFO (Reply_image response) w1)))"

definition now :: "('w, 'd) collab \<Rightarrow> 'w world \<Rightarrow> rat \<times> 'w world" where
  "now c w = (case time_time c (outside w) of (t, out) \<Rightarrow> (t, w\<lparr>outside := out\<rparr>))"

text \<open>
  The \<open>try\<close> block holds the two clock readings and the generation; the delivery
  (\<open>process_complete\<close>) comes after it, outside any handler.
\<close>

definition process_incoming_message ::
  "('w, 'd) collab \<Rightarrow> bot \<Rightarrow> chatbot_message \<Rightarrow> 'w world \<Rightarrow> (exn + unit) \<times> 'w world" where
  "process_incoming_message c self incoming_message w =
     (case now c (log INFO (Get_task incoming_message) w) of
        (begin_time, w1) \<Rightarrow>
          (case txt2img c self (pipe self) incoming_message w1 of
             (Inl e, w2) \<Rightarrow> (Inr (), log ERROR (Do_sd_process_failed e) w2)
           | (Inr image_content, w2) \<Rightarrow>
               (case now c w2 of
                  (end_time, w3) \<Rightarrow>
                    process_complete c
                      (Some \<lparr>task_image = image_content,
                             task_incoming_message = incoming_message,
                             elapse_seconds = end_time - begin_time\<rparr>) w3)))"

subsection \<open>The callback handler\<close>

datatype ack_status = STATUS_OK | STATUS_BAD_REQUEST | STATUS_NOT_IMPLEMENT | STATUS_SYSTEM_EXCEPTION

text \<open>
  How a call of \<open>process\<close> ends: it returns its acknowledgment, an exception leaves it, or
  it waits inside \<open>put\<close> for a free slot of the queue.
\<close>

datatype outcome = Returned "ack_status \<times> string" | Raised exn | Waiting_in_put

definition process ::
  "('w, 'd) collab \<Rightarrow> bot \<Rightarrow> 'd \<Rightarrow> 'w world \<Rightarrow> outcome \<times> bot \<times> 'w world" where
  "process c self callback_data w =
     (case from_dict c callback_data of
        Inl e \<Rightarrow> (Raised e, self, w)
      | Inr incoming_message \<Rightarrow>
          (let w1 = log INFO (Received_incoming_message incoming_message) w
           in if truthy (subprocess (bot_options self)) then
                (case queue_put (task_queue self) incoming_message True None of
                   Enqueued q \<Rightarrow> (Returned (STATUS_OK, ''OK''), self\<lparr>task_queue := q\<rparr>, w1)
                 | Waits \<Rightarrow> (Waiting_in_put, self, w1)
                 | Waits_then_Full t \<Rightarrow> (Raised Full, self, w1)
                 | Raises_Full \<Rightarrow> (Raised Full, self, w1))
              else
                (case process_incoming_message c self incoming_message w1 of
                   (Inl e, w2) \<Rightarrow> (Raised e, self, w2)
                 | (Inr u, w2) \<Rightarrow> (Returned (STATUS_OK, ''OK''), self, w2))))"

subsection \<open>The worker\<close>

text \<open>
  How the worker's \<open>while True\<close> loop stands once the queued messages are used up: it
  waits in \<open>get\<close> for the next one, or an exception has left the loop and ended the worker.
\<close>

datatype worker_end = Waiting_in_get | Died exn

text \<open>
  The loop over the messages that \<open>get\<close> hands out, oldest first. The result also gives
  the messages that were never taken from the queue.
\<close>

fun sd_loop ::
  "('w, 'd) collab \<Rightarrow> bot \<Rightarrow> chatbot_message list \<Rightarrow> 'w world \<Rightarrow> worker_end \<times> chatbot_message list \<times> 'w world" where
  "sd_loop c self [] w = (Waiting_in_get, [], w)"
| "sd_loop c self (incoming_message # queued) w =
     (case process_incoming_message c self incoming_message w of
        (Inl e, w1) \<Rightarrow> (Died e, queued, w1)
      | (Inr u, w1) \<Rightarrow> sd_loop c self queued w1)"

definition do_sd_process ::
  "('w, 'd) collab \<Rightarrow> bot \<Rightarrow> 'w world \<Rightarrow> worker_end \<times> bot \<times> 'w world" where
  "do_sd_process c self w =
     (case create_pipe c (log INFO Do_sd_process w) of
        (Inl e, w1) \<Rightarrow> (Died e, self, w1)
      | (Inr p, w1) \<Rightarrow>
          (case sd_loop c (self\<lparr>pipe := Some p\<rparr>) (items (task_queue self)) w1 of
             (r, left, w2) \<Rightarrow>
               (r, self\<lparr>pipe := Some p, task_queue := (task_queue self)\<lparr>items := left\<rparr>\<rparr>, w2)))"

subsection \<open>The running system\<close>

text \<open>
  The two contexts interleaved: a callback arrives at the handler, or the worker (which
  holds its own pipeline) takes the oldest message from the queue and processes it. A
  callback that finds the queue full waits: the state is unchanged but for the log. A
  worker that an exception has ended takes no further step; the steps here do not record
  that, so they allow every behaviour of the system and some more, which is what a bound
  that holds after every step needs.
\<close>

datatype 'd step = Callback 'd | Worker_get

definition system_step :: "('w, 'd) collab \<Rightarrow> bot \<times> 'w world \<Rightarrow> 'd step \<Rightarrow> bot \<times> 'w world" where
  "system_step c s st =
     (case st of
        Callback d \<Rightarrow> snd (process c (fst s) d (snd s))
      | Worker_get \<Rightarrow>
          (case queue_get (task_queue (fst s)) of
             None \<Rightarrow> s
           | Some (m, q) \<Rightarrow>
               ((fst s)\<lparr>task_queue := q\<rparr>,
                snd (process_incoming_message c ((fst s)\<lparr>pipe := Some Pipe_handle\<rparr>) m (snd s)))))"

definition run :: "('w, 'd) collab \<Rightarrow> bot \<times> 'w world \<Rightarrow> 'd step list \<Rightarrow> bot \<times> 'w world" where
  "run c s steps = foldl (system_step c) s steps"

subsection \<open>Concrete collaborators for evaluation\<close>

text \<open>
  A collaborator set to run the definitions on: the outside world is the clock, every call
  of the pipeline takes 3/4 of a second, the pipeline answers a request for four images
  with \<open>generated\<close> and any other request with one black tile, the upload answers
  \<open>uploaded\<close>, and the event \<open>{\<close> cannot be deserialized.
\<close>

definition tile :: "rgb \<Rightarrow> image" where
  "tile colour = \<lparr>width = 512, height = 512, pixel = (\<lambda>x y. colour)\<rparr>"

definition demo_message :: "string \<Rightarrow> chatbot_message" where
  "demo_message s = \<lparr>sender_id = ''user'', conversation_id = ''chat'',
                      msg_text = Some \<lparr>content = Some s\<rparr>\<rparr>"

definition demo :: "exn + image list \<Rightarrow> exn + string \<Rightarrow> (rat, string) collab" where
  "demo generated uploaded =
     \<lparr>from_pretrained = (\<lambda>t. (Inr Pipe_handle, t)),
      pipe_run = (\<lambda>t a. (if num_images_per_prompt a = Some 4 then generated
                          else Inr [tile (0, 0, 0)], t + 3 / 4)),
      save = (\<lambda>im fmt. [width im, height im]),
      time_time = (\<lambda>t. (t, t)),
      str_float = (\<lambda>x. ''nan''),
      upload_to_dingtalk = (\<lambda>t b. (uploaded, t)),
      reply_markdown = (\<lambda>t ti body m. (Inr ''sent'', t)),
      from_dict = (\<lambda>d. if d = ''{'' then Inl (Exception ''malformed'') else Inr (demo_message d))\<rparr>"

definition four_tiles :: "image list" where
  "four_tiles = [tile (255, 0, 0), tile (0, 255, 0), tile (0, 0, 255), tile (255, 255, 255)]"

definition world0 :: "rat world" where
  "world0 = \<lparr>trace = [], outside = 0\<rparr>"

definition demo_bot :: "bool \<Rightarrow> chatbot_message list \<Rightarrow> bot" where
  "demo_bot offload queued =
     \<lparr>bot_options = \<lparr>subprocess = Some offload\<rparr>,
      pipe = (if offload then None else Some Pipe_handle),
      enable_four_images = True,
      task_queue = \<lparr>maxsize = 128, items = queued\<rparr>\<rparr>"

text \<open>
  The generation call of \<open>txt2img_one\<close>, \<open>pipe(prompt, height=512, width=512)\<close>: a call
  of the pipeline that gives neither a number of inference steps (as the warm-up does) nor a
  number of images per prompt (as the generation call of \<open>txt2img_four\<close> does).
\<close>

fun single_image_call :: "event \<Rightarrow> bool" where
  "single_image_call (Pipe_called a) =
     (num_inference_steps a = None \<and> num_images_per_prompt a = None)"
| "single_image_call ev = False"

text \<open>From \<open>w\<close> to \<open>w'\<close> the trace has only grown, and by no single-image call.\<close>

abbreviation grid_only :: "'w world \<Rightarrow> 'w world \<Rightarrow> bool" where
  "grid_only w w' \<equiv> \<exists>evs. trace w' = trace w @ evs \<and> (\<forall>ev \<in> set evs. \<not> single_image_call ev)"

text \<open>
  What holds of the bot from its construction on: the grid flag is set, the options are
  the ones it was built with, and the queue has capacity 128 and holds no more than that.
\<close>

definition bot_inv :: "options \<Rightarrow> bot \<Rightarrow> bool" where
  "bot_inv opts b \<longleftrightarrow>
     enable_four_images b \<and> bot_options b = opts \<and>
     maxsize (task_queue b) = 128 \<and> length (items (task_queue b)) \<le> 128"

section \<open>Grid composition\<close>

lemma merge_four_size: "width (merge_four images) = 1024 \<and> height (merge_four images) = 1024"
  by (simp add: merge_four_def paste_def Image_new_def)

lemma merge_four_pixels:
  assumes "\<forall>i<4. width (images ! i) = 512 \<and> height (images ! i) = 512"
    and "x < 512" and "y < 512"
  shows "pixel (merge_four images) x y = pixel (images ! 0) x y"
    and "pixel (merge_four images) (512 + x) y = pixel (images ! 1) x y"
    and "pixel (merge_four images) x (512 + y) = pixel (images ! 2) x y"
    and "pixel (merge_four images) (512 + x) (512 + y) = pixel (images ! 3) x y"
  using assms by (simp_all add: merge_four_def paste_def Image_new_def)

lemma txt2img_four_enough:
  assumes "stripped_content m = Inr pr"
    and "pipe_run c (outside w) (warmup_args pr) = (Inr warm, out1)"
    and "pipe_run c out1 (four_args pr) = (Inr images, out2)"
    and "\<not> length images < 4"
  shows "fst (txt2img_four c (Some h) m w) = Inr (Some (save c (merge_four images) PNG))"
  using assms by (simp add: txt2img_four_def call_pipe_def)

text \<open>
  C2: in grid mode, when the engine returns four images of 512 by 512, the canvas that is
  saved as PNG is 1024 by 1024 and carries the four tiles, in generation order, at the
  offsets (0,0), (512,0), (0,512) and (512,512).
\<close>

theorem txt2img_four_grid:
  assumes "stripped_content m = Inr pr"
    and "pipe_run c (outside w) (warmup_args pr) = (Inr warm, out1)"
    and "pipe_run c out1 (four_args pr) = (Inr images, out2)"
    and "length images = 4"
    and "\<forall>im \<in> set images. width im = 512 \<and> height im = 512"
  shows "\<exists>canvas.
           fst (txt2img_four c (Some h) m w) = Inr (Some (save c canvas PNG)) \<and>
           width canvas = 2 * 512 \<and> height canvas = 2 * 512 \<and>
           (\<forall>x<512. \<forall>y<512.
              pixel canvas x y = pixel (images ! 0) x y \<and>
              pixel canvas (512 + x) y = pixel (images ! 1) x y \<and>
              pixel canvas x (512 + y) = pixel (images ! 2) x y \<and>
              pixel canvas (512 + x) (512 + y) = pixel (images ! 3) x y)"
proof -
  have sz: "\<forall>i<4. width (images ! i) = 512 \<and> height (images ! i) = 512"
    using assms(4,5) by simp
  have res: "fst (txt2img_four c (Some h) m w) = Inr (Some (save c (merge_four images) PNG))"
    using assms(1-4) by (intro txt2img_four_enough) simp_all
  show ?thesis
    using res merge_four_size[of images] merge_four_pixels[OF sz]
    by (intro exI[of _ "merge_four images"]) simp
qed

theorem txt2img_four_grid_witness:
  "\<exists>canvas.
     fst (txt2img_four (demo (Inr four_tiles) (Inr ''media'')) (Some Pipe_handle)
            (demo_message ''a red cat'') world0)
       = Inr (Some (save (demo (Inr four_tiles) (Inr ''media'')) canvas PNG)) \<and>
     width canvas = 1024 \<and> height canvas = 1024 \<and>
     (\<forall>x<512. \<forall>y<512.
        pixel canvas x y = (255, 0, 0) \<and>
        pixel canvas (512 + x) y = (0, 255, 0) \<and>
        pixel canvas x (512 + y) = (0, 0, 255) \<and>
        pixel canvas (512 + x) (512 + y) = (255, 255, 255))"
proof -
  have 1: "stripped_content (demo_message ''a red cat'') = Inr ''a red cat''"
    by (simp add: stripped_content_def demo_message_def strip_def lstrip_def rstrip_def
        isspace_def whitespace_def)
  have 2: "pipe_run (demo (Inr four_tiles) (Inr ''media'')) (outside world0) (warmup_args ''a red cat'')
             = (Inr [tile (0, 0, 0)], 3 / 4)"
    by (simp add: demo_def world0_def warmup_args_def)
  have 3: "pipe_run (demo (Inr four_tiles) (Inr ''media'')) (3 / 4) (four_args ''a red cat'')
             = (Inr four_tiles, 3 / 2)"
    by (simp add: demo_def four_args_def)
  have 4: "length four_tiles = 4"
    by (simp add: four_tiles_def)
  have 5: "\<forall>im \<in> set four_tiles. width im = 512 \<and> height im = 512"
    by (simp add: four_tiles_def tile_def)
  show ?thesis
    using txt2img_four_grid [OF 1 2 3 4 5, of Pipe_handle]
    by (simp add: four_tiles_def tile_def)
qed

section \<open>The reply body\<close>

lemma lstrip_split: "s = takeWhile isspace s @ lstrip s"
  by (simp add: lstrip_def)

lemma rstrip_split: "s = rstrip s @ rev (takeWhile isspace (rev s))"
proof -
  have "rev (takeWhile isspace (rev s) @ dropWhile isspace (rev s)) = s"
    by (simp only: takeWhile_dropWhile_id rev_rev_ident)
  then have "rev (dropWhile isspace (rev s)) @ rev (takeWhile isspace (rev s)) = s"
    by (simp only: rev_append)
  then show ?thesis by (simp only: rstrip_def)
qed

lemma rstrip_last: "rstrip s \<noteq> [] \<Longrightarrow> \<not> isspace (last (rstrip s))"
  by (simp add: rstrip_def last_rev hd_dropWhile)

lemma lstrip_hd: "lstrip s \<noteq> [] \<Longrightarrow> \<not> isspace (hd (lstrip s))"
  by (simp add: lstrip_def hd_dropWhile)

lemma rstrip_hd: "rstrip s \<noteq> [] \<Longrightarrow> hd (rstrip s) = hd s"
  using rstrip_split[of s] by (metis hd_append2)

lemma strip_spec:
  "\<exists>pre suf. s = pre @ strip s @ suf \<and> (\<forall>ch \<in> set pre. isspace ch) \<and> (\<forall>ch \<in> set suf. isspace ch) \<and>
     (strip s \<noteq> [] \<longrightarrow> \<not> isspace (hd (strip s)) \<and> \<not> isspace (last (strip s)))"
proof -
  let ?pre = "takeWhile isspace s"
  let ?suf = "rev (takeWhile isspace (rev (lstrip s)))"
  have a: "s = ?pre @ strip s @ ?suf"
    using lstrip_split[of s] rstrip_split[of "lstrip s"] by (simp add: strip_def)
  have b: "\<forall>ch \<in> set ?pre. isspace ch"
    by (auto dest: set_takeWhileD)
  have c: "\<forall>ch \<in> set ?suf. isspace ch"
    by (auto dest: set_takeWhileD)
  have d: "strip s \<noteq> [] \<longrightarrow> \<not> isspace (hd (strip s)) \<and> \<not> isspace (last (strip s))"
  proof
    assume ne: "strip s \<noteq> []"
    then have ne2: "lstrip s \<noteq> []" by (auto simp: strip_def rstrip_def)
    have "hd (strip s) = hd (lstrip s)" using ne by (simp add: strip_def rstrip_hd)
    then show "\<not> isspace (hd (strip s)) \<and> \<not> isspace (last (strip s))"
      using lstrip_hd[OF ne2] rstrip_last[of "lstrip s"] ne by (simp add: strip_def)
  qed
  from a b c d show ?thesis by blast
qed

lemma reply_image_sent:
  assumes "msg_text m = Some t" and "content t = Some s"
    and "upload_to_dingtalk c (outside w) img = (Inr media_id, out)"
  shows "trace (snd (reply_image c img e m w)) =
           trace w @ [Uploaded img, Logged INFO (Media_id media_id),
                      Replied title (reply_content (strip s) media_id (str_round3 (str_float c) e)) m]"
  using assms
  by (simp add: reply_image_def stripped_content_def log_def Let_def split: prod.splits)

text \<open>
  C7: when the upload succeeds, the body handed to \<open>reply_markdown\<close> is the fixed
  layout holding the prompt with its leading and trailing whitespace removed, the image
  reference to the uploaded media, the cost line and the attribution lines. The stripped
  prompt is what is left of the prompt between a whitespace prefix and a whitespace suffix,
  and neither begins nor ends with whitespace.
\<close>

theorem reply_image_embeds_stripped_prompt:
  assumes "msg_text m = Some t" and "content t = Some s"
    and "upload_to_dingtalk c (outside w) img = (Inr media_id, out)"
  shows "\<exists>cost pre suf.
           trace (snd (reply_image c img e m w)) =
             trace w @ [Uploaded img, Logged INFO (Media_id media_id),
                        Replied ''Stable Diffusion txt2img''
                          (''#### Prompts: '' @ strip s @ nl @ nl @
                           ''![image]('' @ media_id @ '')'' @ nl @ nl @
                           ''> cost '' @ cost @ ''s'' @ nl @
                           ''> '' @ nl @
                           ''> Powered by Stable Diffusion'' @ nl @
                           ''> '' @ nl @
                           ''> via https://github.com/chzealot/dingtalk-stable-diffusion'' @ nl) m] \<and>
           s = pre @ strip s @ suf \<and>
           (\<forall>ch \<in> set pre. isspace ch) \<and> (\<forall>ch \<in> set suf. isspace ch) \<and>
           (strip s \<noteq> [] \<longrightarrow> \<not> isspace (hd (strip s)) \<and> \<not> isspace (last (strip s)))"
proof -
  obtain pre suf where ps: "s = pre @ strip s @ suf" "\<forall>ch \<in> set pre. isspace ch"
      "\<forall>ch \<in> set suf. isspace ch"
      "strip s \<noteq> [] \<longrightarrow> \<not> isspace (hd (strip s)) \<and> \<not> isspace (last (strip s))"
    using strip_spec[of s] by blast
  have "trace (snd (reply_image c img e m w)) =
           trace w @ [Uploaded img, Logged INFO (Media_id media_id),
                      Replied title (reply_content (strip s) media_id (str_round3 (str_float c) e)) m]"
    using assms by (rule reply_image_sent)
  then show ?thesis using ps
    unfolding title_def reply_content_def by blast
qed

lemma strip_blue_sky: "strip ''  a blue sky  '' = ''a blue sky''"
  by (simp add: strip_def lstrip_def rstrip_def isspace_def whitespace_def)

theorem reply_image_embeds_stripped_prompt_witness:
  "\<exists>cost.
     trace (snd (reply_image (demo (Inr four_tiles) (Inr ''media'')) (Some [1024, 1024]) (3 / 2)
                   (demo_message ''  a blue sky  '') world0)) =
       [Uploaded (Some [1024, 1024]), Logged INFO (Media_id ''media''),
        Replied ''Stable Diffusion txt2img''
          (''#### Prompts: a blue sky'' @ nl @ nl @
           ''![image](media)'' @ nl @ nl @
           ''> cost '' @ cost @ ''s'' @ nl @
           ''> '' @ nl @
           ''> Powered by Stable Diffusion'' @ nl @
           ''> '' @ nl @
           ''> via https://github.com/chzealot/dingtalk-stable-diffusion'' @ nl)
          (demo_message ''  a blue sky  '')]"
proof -
  have 1: "msg_text (demo_message ''  a blue sky  '') = Some \<lparr>content = Some ''  a blue sky  ''\<rparr>"
    by (simp add: demo_message_def)
  have 2: "content \<lparr>content = Some ''  a blue sky  ''\<rparr> = Some ''  a blue sky  ''"
    by simp
  have 3: "upload_to_dingtalk (demo (Inr four_tiles) (Inr ''media'')) (outside world0) (Some [1024, 1024])
             = (Inr ''media'', 0)"
    by (simp add: demo_def world0_def)
  show ?thesis
    using reply_image_embeds_stripped_prompt [OF 1 2 3, of "3 / 2"]
    by (simp add: strip_blue_sky world0_def)
qed

section \<open>The elapsed time in the reply\<close>

lemma digit_not_dot: "d < 10 \<Longrightarrow> digit d \<noteq> CHR ''.''"
proof -
  assume "d < 10"
  then have "d \<in> {0, 1, 2, 3, 4, 5, 6, 7, 8, 9}" by auto
  then show ?thesis by (auto simp: digit_def)
qed

lemma str_nat_no_dot: "CHR ''.'' \<notin> set (str_nat n)"
proof (induction n rule: str_nat.induct)
  case (1 n)
  show ?case
  proof (cases "n < 10")
    case True
    then show ?thesis using digit_not_dot[of n] by (subst str_nat.simps) auto
  next
    case False
    have "n mod 10 < 10" by simp
    then have "digit (n mod 10) \<noteq> CHR ''.''" by (rule digit_not_dot)
    with False 1 show ?thesis by (subst str_nat.simps) auto
  qed
qed

lemma decimal_digits_thousandths:
  "decimal_digits (str_thousandths k) = length (frac_digits (k mod 1000))"
proof -
  have "dropWhile (\<lambda>ch. ch \<noteq> CHR ''.'') (str_nat (k div 1000) @ ''.'' @ frac_digits (k mod 1000))
        = ''.'' @ frac_digits (k mod 1000)"
    using str_nat_no_dot[of "k div 1000"] by (subst dropWhile_append2) auto
  then show ?thesis by (simp add: decimal_digits_def str_thousandths_def)
qed

lemma decimal_digits_signed:
  "decimal_digits ((if neg then ''-'' else []) @ str_thousandths k) = length (frac_digits (k mod 1000))"
  using decimal_digits_thousandths[of k] by (simp add: decimal_digits_def)

lemma frac_digits_length: "1 \<le> length (frac_digits r) \<and> length (frac_digits r) \<le> 3"
  by (simp add: frac_digits_def)

lemma mod_ten_of_multiple: "(10::nat) dvd b \<Longrightarrow> r mod b = 0 \<Longrightarrow> r mod 10 = 0"
  by (meson dvd_trans mod_eq_0_iff_dvd)

lemma frac_digits_three: "length (frac_digits (k mod 1000)) = 3 \<longleftrightarrow> k mod 10 \<noteq> 0"
proof -
  define r where "r = k mod 1000"
  have "(10::nat) dvd 1000" by simp
  then have k: "r mod 10 = k mod 10" unfolding r_def by (rule mod_mod_cancel)
  have a: "r mod 1000 = 0 \<Longrightarrow> r mod 10 = 0" by (rule mod_ten_of_multiple) simp_all
  have b: "r mod 100 = 0 \<Longrightarrow> r mod 10 = 0" by (rule mod_ten_of_multiple) simp_all
  have "length (frac_digits r) = 3 \<longleftrightarrow> r mod 10 \<noteq> 0"
  proof (cases "r mod 10 = 0")
    case True
    then show ?thesis by (simp add: frac_digits_def)
  next
    case False
    with a b have "r mod 1000 \<noteq> 0" "r mod 100 \<noteq> 0" by blast+
    with False show ?thesis by (simp add: frac_digits_def)
  qed
  then show ?thesis using k by (simp only: r_def)
qed

lemma round3_nonneg: "0 \<le> x \<Longrightarrow> 0 \<le> round3 x"
proof -
  assume "0 \<le> x"
  then have "0 \<le> \<lfloor>x * 1000\<rfloor>" by simp
  then show ?thesis by (simp add: round3_def Let_def)
qed

lemma round3_near: "\<bar>of_int (round3 x) / 1000 - x\<bar> \<le> 1 / 2000"
proof -
  define s where "s = x * 1000"
  define f where "f = \<lfloor>s\<rfloor>"
  define d where "d = s - of_int f"
  have d0: "0 \<le> d" and d1: "d < 1" unfolding d_def f_def by linarith+
  have r: "round3 x = (if d < 1 / 2 then f else if 1 / 2 < d then f + 1 else if even f then f else f + 1)"
    by (simp add: round3_def Let_def s_def f_def d_def)
  have "\<bar>of_int (round3 x) - s\<bar> \<le> 1 / 2"
    using d0 d1 unfolding r d_def by (auto simp: abs_if)
  then have "\<bar>of_int (round3 x) - x * 1000\<bar> / 1000 \<le> (1 / 2) / 1000"
    unfolding s_def by (simp add: divide_right_mono)
  moreover have "\<bar>of_int (round3 x) - x * 1000\<bar> / 1000 = \<bar>of_int (round3 x) / 1000 - x\<bar>"
    by (simp add: abs_if field_simps)
  ultimately show ?thesis by simp
qed

lemma stripped_red_cat: "stripped_content (demo_message ''a red cat'') = Inr ''a red cat''"
  by (simp add: stripped_content_def demo_message_def strip_def lstrip_def rstrip_def
      isspace_def whitespace_def)

lemma str_round3_demo: "str_round3 other (3 / 2) = ''1.5''"
  apply (simp add: str_round3_def round3_def Let_def str_thousandths_def frac_digits_def digit_def)
  apply (subst str_nat.simps)
  apply (simp add: digit_def)
  done

lemma demo_fields:
  "pipe_run (demo g u) = (\<lambda>t a. (if num_images_per_prompt a = Some 4 then g else Inr [tile (0, 0, 0)], t + 3 / 4))"
  "save (demo g u) = (\<lambda>im fmt. [width im, height im])"
  "time_time (demo g u) = (\<lambda>t. (t, t))"
  "str_float (demo g u) = (\<lambda>x. ''nan'')"
  "upload_to_dingtalk (demo g u) = (\<lambda>t b. (u, t))"
  "reply_markdown (demo g u) = (\<lambda>t ti body m. (Inr ''sent'', t))"
  "from_pretrained (demo g u) = (\<lambda>t. (Inr Pipe_handle, t))"
  "from_dict (demo g u) = (\<lambda>d. if d = ''{'' then Inl (Exception ''malformed'') else Inr (demo_message d))"
  by (simp_all add: demo_def)

lemma demo_bot_fields:
  "pipe (demo_bot off q) = (if off then None else Some Pipe_handle)"
  "enable_four_images (demo_bot off q) = True"
  "task_queue (demo_bot off q) = \<lparr>maxsize = 128, items = q\<rparr>"
  "bot_options (demo_bot off q) = \<lparr>subprocess = Some off\<rparr>"
  by (simp_all add: demo_bot_def)

lemma txt2img_demo:
  "txt2img (demo (Inr four_tiles) u) (demo_bot off q) (Some Pipe_handle)
             (demo_message ''a red cat'') \<lparr>trace = tr, outside = t\<rparr>
           = (Inr (Some [1024, 1024]),
              \<lparr>trace = tr @ [Pipe_called (warmup_args ''a red cat''), Pipe_called (four_args ''a red cat'')],
               outside = t + 3 / 2\<rparr>)"
  by (simp add: txt2img_def txt2img_four_def stripped_red_cat call_pipe_def demo_fields demo_bot_fields
        warmup_args_def four_args_def four_tiles_def merge_four_size)


lemma reply_image_demo:
  "reply_image (demo g (Inr ''media'')) img (3 / 2) (demo_message ''a red cat'') \<lparr>trace = tr, outside = t\<rparr>
     = (Inr ''sent'',
        \<lparr>trace = tr @ [Uploaded img, Logged INFO (Media_id ''media''),
                        Replied title (reply_content ''a red cat'' ''media'' ''1.5'')
                          (demo_message ''a red cat'')],
         outside = t\<rparr>)"
  by (simp add: reply_image_def demo_fields log_def stripped_red_cat str_round3_demo Let_def)


text \<open>
  C8, as stated, fails: a request whose generation took exactly 1.5 seconds is answered
  with the cost line \<open>> cost 1.5s\<close>, one decimal digit.
\<close>

theorem elapsed_three_decimals_counterexample:
  "trace (snd (process_incoming_message (demo (Inr four_tiles) (Inr ''media'')) (demo_bot False [])
                 (demo_message ''a red cat'') world0)) =
     [Logged INFO (Get_task (demo_message ''a red cat'')),
      Pipe_called (warmup_args ''a red cat''), Pipe_called (four_args ''a red cat''),
      Uploaded (Some [1024, 1024]), Logged INFO (Media_id ''media''),
      Replied title (reply_content ''a red cat'' ''media'' ''1.5'') (demo_message ''a red cat''),
      Logged INFO (Reply_image ''sent'')] \<and> decimal_digits ''1.5'' = 1"
  by (simp add: process_incoming_message_def now_def log_def world0_def demo_fields demo_bot_fields
      txt2img_demo process_complete_def reply_image_demo decimal_digits_def)
lemma round3_demo: "round3 (3 / 2) = 1500"
  by (simp add: round3_def Let_def)

lemma str_nat_digit: "n < 10 \<Longrightarrow> str_nat n = [digit n]"
  by (subst str_nat.simps) simp

text \<open>
  C8, amended: for an elapsed time of magnitude below \<open>10^12\<close> seconds, negative ones
  included, the cost embedded in the reply body is the elapsed time rounded to the nearest
  thousandth, written with a minus sign if the elapsed time is negative, the integer part,
  a point and the fraction without trailing zeros: at least one and at most three decimal
  digits, and three exactly when the third decimal of the rounded value is not zero.
\<close>

theorem reply_image_cost_digits:
  assumes "msg_text m = Some t" and "content t = Some s"
    and "upload_to_dingtalk c (outside w) img = (Inr media_id, out)"
    and "\<bar>e\<bar> < 10 ^ 12"
  shows "\<exists>cost.
           trace (snd (reply_image c img e m w)) =
             trace w @ [Uploaded img, Logged INFO (Media_id media_id),
                        Replied title (reply_content (strip s) media_id cost) m] \<and>
           cost = (if e < 0 then ''-'' else []) @ str_nat (nat \<bar>round3 e\<bar> div 1000) @ ''.'' @
                  frac_digits (nat \<bar>round3 e\<bar> mod 1000) \<and>
           \<bar>of_int (round3 e) / 1000 - e\<bar> \<le> 1 / 2000 \<and>
           1 \<le> decimal_digits cost \<and> decimal_digits cost \<le> 3 \<and>
           (decimal_digits cost = 3 \<longleftrightarrow> nat \<bar>round3 e\<bar> mod 10 \<noteq> 0)"
proof -
  let ?k = "nat \<bar>round3 e\<bar>"
  let ?cost = "(if e < 0 then ''-'' else []) @ str_thousandths ?k"
  have cost: "str_round3 (str_float c) e = ?cost"
    using assms(4) by (simp add: str_round3_def)
  have tr: "trace (snd (reply_image c img e m w)) =
              trace w @ [Uploaded img, Logged INFO (Media_id media_id),
                         Replied title (reply_content (strip s) media_id ?cost) m]"
    using reply_image_sent [OF assms(1-3), of e] by (simp only: cost)
  have dd: "decimal_digits ?cost = length (frac_digits (?k mod 1000))"
    by (rule decimal_digits_signed)
  have c2: "?cost = (if e < 0 then ''-'' else []) @ str_nat (?k div 1000) @ ''.'' @
                    frac_digits (?k mod 1000)"
    by (simp add: str_thousandths_def)
  have n: "\<bar>of_int (round3 e) / 1000 - e\<bar> \<le> 1 / 2000"
    by (rule round3_near)
  have d13: "1 \<le> decimal_digits ?cost \<and> decimal_digits ?cost \<le> 3"
    using frac_digits_length[of "?k mod 1000"] by (simp only: dd)
  have d3: "decimal_digits ?cost = 3 \<longleftrightarrow> ?k mod 10 \<noteq> 0"
    using frac_digits_three[of ?k] by (simp only: dd)
  from tr c2 n d13 d3 show ?thesis
    by (intro exI[of _ ?cost] conjI) simp_all
qed

lemma round3_demo_negative: "round3 (- 1 / 2) = - 500"
  by (simp add: round3_def Let_def)

lemma cost_demo: "(if (3 / 2 :: rat) < 0 then ''-'' else []) @
    str_nat (nat \<bar>round3 (3 / 2)\<bar> div 1000) @ ''.'' @ frac_digits (nat \<bar>round3 (3 / 2)\<bar> mod 1000)
    = ''1.5''"
  by (simp add: round3_demo str_nat_digit frac_digits_def digit_def)

lemma thousandths_demo_negative: "nat \<bar>round3 (- 1 / 2)\<bar> = 500"
  by (simp only: round3_demo_negative)

lemma digits_demo_negative: "str_nat (500 div 1000) @ ''.'' @ frac_digits (500 mod 1000) = ''0.5''"
  by (simp add: str_nat_digit frac_digits_def digit_def)

lemma sign_demo_negative: "(- 1 / 2 :: rat) < 0"
  by simp

lemma cost_demo_negative: "(if (- 1 / 2 :: rat) < 0 then ''-'' else []) @
    str_nat (nat \<bar>round3 (- 1 / 2)\<bar> div 1000) @ ''.'' @ frac_digits (nat \<bar>round3 (- 1 / 2)\<bar> mod 1000)
    = ''-0.5''"
  by (simp only: thousandths_demo_negative digits_demo_negative sign_demo_negative if_True) simp

lemma decimal_digits_demo: "decimal_digits ''1.5'' = 1" "decimal_digits ''-0.5'' = 1"
  by (simp_all add: decimal_digits_def)

theorem reply_image_cost_digits_witness:
  "(\<exists>cost.
     trace (snd (reply_image (demo (Inr four_tiles) (Inr ''media'')) (Some [1024, 1024]) (3 / 2)
                   (demo_message ''a red cat'') world0)) =
       [Uploaded (Some [1024, 1024]), Logged INFO (Media_id ''media''),
        Replied title (reply_content ''a red cat'' ''media'' cost) (demo_message ''a red cat'')] \<and>
     cost = ''1.5'' \<and> decimal_digits cost = 1) \<and>
   (\<exists>cost.
     trace (snd (reply_image (demo (Inr four_tiles) (Inr ''media'')) (Some [1024, 1024]) (- 1 / 2)
                   (demo_message ''a red cat'') world0)) =
       [Uploaded (Some [1024, 1024]), Logged INFO (Media_id ''media''),
        Replied title (reply_content ''a red cat'' ''media'' cost) (demo_message ''a red cat'')] \<and>
     cost = ''-0.5'' \<and> decimal_digits cost = 1)"
proof -
  have 1: "msg_text (demo_message ''a red cat'') = Some \<lparr>content = Some ''a red cat''\<rparr>"
    by (simp add: demo_message_def)
  have 2: "content \<lparr>content = Some ''a red cat''\<rparr> = Some ''a red cat''"
    by simp
  have 3: "upload_to_dingtalk (demo (Inr four_tiles) (Inr ''media'')) (outside world0) (Some [1024, 1024])
             = (Inr ''media'', 0)"
    by (simp add: demo_fields world0_def)
  have 4: "\<bar>3 / 2 :: rat\<bar> < 10 ^ 12" by simp
  have 5: "\<bar>- 1 / 2 :: rat\<bar> < 10 ^ 12" by simp
  have s: "strip ''a red cat'' = ''a red cat''"
    by (simp add: strip_def lstrip_def rstrip_def isspace_def whitespace_def)
  have t: "trace world0 = []"
    by (simp add: world0_def)
  have a: "\<exists>cost.
     trace (snd (reply_image (demo (Inr four_tiles) (Inr ''media'')) (Some [1024, 1024]) (3 / 2)
                   (demo_message ''a red cat'') world0)) =
       [Uploaded (Some [1024, 1024]), Logged INFO (Media_id ''media''),
        Replied title (reply_content ''a red cat'' ''media'' cost) (demo_message ''a red cat'')] \<and>
     cost = ''1.5'' \<and> decimal_digits cost = 1"
  proof -
    from reply_image_cost_digits [OF 1 2 3 4] obtain cost where
      tr: "trace (snd (reply_image (demo (Inr four_tiles) (Inr ''media'')) (Some [1024, 1024]) (3 / 2)
                   (demo_message ''a red cat'') world0)) =
         trace world0 @ [Uploaded (Some [1024, 1024]), Logged INFO (Media_id ''media''),
           Replied title (reply_content (strip ''a red cat'') ''media'' cost) (demo_message ''a red cat'')]"
      and c: "cost = (if (3 / 2 :: rat) < 0 then ''-'' else []) @
             str_nat (nat \<bar>round3 (3 / 2)\<bar> div 1000) @ ''.'' @ frac_digits (nat \<bar>round3 (3 / 2)\<bar> mod 1000)"
      by blast
    have c': "cost = ''1.5''"
      using c by (simp only: cost_demo)
    have "trace (snd (reply_image (demo (Inr four_tiles) (Inr ''media'')) (Some [1024, 1024]) (3 / 2)
                   (demo_message ''a red cat'') world0)) =
         [Uploaded (Some [1024, 1024]), Logged INFO (Media_id ''media''),
           Replied title (reply_content ''a red cat'' ''media'' ''1.5'') (demo_message ''a red cat'')]"
      using tr by (simp only: c' s t append_Nil)
    then show ?thesis
      using decimal_digits_demo(1) by (intro exI[of _ "''1.5''"] conjI refl)
  qed
  have b: "\<exists>cost.
     trace (snd (reply_image (demo (Inr four_tiles) (Inr ''media'')) (Some [1024, 1024]) (- 1 / 2)
                   (demo_message ''a red cat'') world0)) =
       [Uploaded (Some [1024, 1024]), Logged INFO (Media_id ''media''),
        Replied title (reply_content ''a red cat'' ''media'' cost) (demo_message ''a red cat'')] \<and>
     cost = ''-0.5'' \<and> decimal_digits cost = 1"
  proof -
    from reply_image_cost_digits [OF 1 2 3 5] obtain cost where
      tr: "trace (snd (reply_image (demo (Inr four_tiles) (Inr ''media'')) (Some [1024, 1024]) (- 1 / 2)
                   (demo_message ''a red cat'') world0)) =
         trace world0 @ [Uploaded (Some [1024, 1024]), Logged INFO (Media_id ''media''),
           Replied title (reply_content (strip ''a red cat'') ''media'' cost) (demo_message ''a red cat'')]"
      and c: "cost = (if (- 1 / 2 :: rat) < 0 then ''-'' else []) @
             str_nat (nat \<bar>round3 (- 1 / 2)\<bar> div 1000) @ ''.'' @ frac_digits (nat \<bar>round3 (- 1 / 2)\<bar> mod 1000)"
      by blast
    have c': "cost = ''-0.5''"
      using c by (simp only: cost_demo_negative)
    have "trace (snd (reply_image (demo (Inr four_tiles) (Inr ''media'')) (Some [1024, 1024]) (- 1 / 2)
                   (demo_message ''a red cat'') world0)) =
         [Uploaded (Some [1024, 1024]), Logged INFO (Media_id ''media''),
           Replied title (reply_content ''a red cat'' ''media'' ''-0.5'') (demo_message ''a red cat'')]"
      using tr by (simp only: c' s t append_Nil)
    then show ?thesis
      using decimal_digits_demo(2) by (intro exI[of _ "''-0.5''"] conjI refl)
  qed
  from a b show ?thesis by (rule conjI)
qed

section \<open>Generation failure\<close>

lemma txt2img_raises_trace:
  assumes "txt2img c self p m w = (Inl e, w')"
  shows "\<exists>pcs. trace w' = trace w @ pcs \<and> length pcs \<le> 2 \<and> (\<forall>ev \<in> set pcs. \<exists>a. ev = Pipe_called a)"
proof (cases "stripped_content m")
  case (Inl e0)
  with assms have "w' = w"
    by (simp add: txt2img_def txt2img_four_def txt2img_one_def split: if_splits)
  then show ?thesis by simp
next
  case (Inr pr)
  show ?thesis
  proof (cases p)
    case None
    with Inr assms have "w' = w"
      by (simp add: txt2img_def txt2img_four_def txt2img_one_def call_pipe_def split: if_splits)
    then show ?thesis by simp
  next
    case (Some h)
    obtain r1 o1 where r1: "pipe_run c (outside w) (warmup_args pr) = (r1, o1)"
      by (cases "pipe_run c (outside w) (warmup_args pr)")
    show ?thesis
    proof (cases r1)
      case (Inl e1)
      with Inr Some r1 assms have "trace w' = trace w @ [Pipe_called (warmup_args pr)]"
        by (auto simp: txt2img_def txt2img_four_def txt2img_one_def call_pipe_def split: if_splits)
      then show ?thesis by simp
    next
      case (Inr warm)
      have "trace w' = trace w @ [Pipe_called (warmup_args pr), Pipe_called (four_args pr)] \<or>
            trace w' = trace w @ [Pipe_called (warmup_args pr), Pipe_called (one_args pr)]"
        using assms \<open>stripped_content m = Inr pr\<close> Some r1 Inr
        by (auto simp: txt2img_def txt2img_four_def txt2img_one_def call_pipe_def
            split: if_splits prod.splits sum.splits list.splits)
      then show ?thesis by auto
    qed
  qed
qed

lemma error_records_append: "error_records (xs @ ys) = error_records xs @ error_records ys"
  by (induction xs rule: error_records.induct) simp_all

lemma error_records_pipe_calls:
  "\<forall>ev \<in> set pcs. \<exists>a. ev = Pipe_called a \<Longrightarrow> error_records pcs = []"
  by (induction pcs) auto

lemma stripped_blue_sky: "stripped_content (demo_message ''a blue sky'') = Inr ''a blue sky''"
  by (simp add: stripped_content_def demo_message_def strip_def lstrip_def rstrip_def
      isspace_def whitespace_def)

lemma txt2img_demo_raises_any:
  assumes "stripped_content (demo_message s) = Inr pr"
  shows "txt2img (demo (Inl e) u) (demo_bot off q) (Some Pipe_handle)
           (demo_message s) \<lparr>trace = tr, outside = t\<rparr>
         = (Inl e, \<lparr>trace = tr @ [Pipe_called (warmup_args pr), Pipe_called (four_args pr)],
                    outside = t + 3 / 2\<rparr>)"
  by (simp add: txt2img_def txt2img_four_def assms call_pipe_def demo_fields demo_bot_fields
        warmup_args_def four_args_def)

lemma generation_failure_demo:
  assumes "stripped_content (demo_message s) = Inr pr"
  shows "snd (process_incoming_message (demo (Inl e) u) (demo_bot False []) (demo_message s) world0)
         = \<lparr>trace = [Logged INFO (Get_task (demo_message s)),
                     Pipe_called (warmup_args pr), Pipe_called (four_args pr),
                     Logged ERROR (Do_sd_process_failed e)], outside = 3 / 2\<rparr>"
  by (simp add: process_incoming_message_def now_def log_def world0_def demo_fields
      demo_bot_fields txt2img_demo_raises_any[OF assms])

text \<open>
  C4, as stated, fails: the error is not logged with the prompt context. The one record
  of level \<open>ERROR\<close> carries the exception alone, so a failed generation for the prompt
  \<open>a red cat\<close> and one for the prompt \<open>a blue sky\<close> leave the same error record.
\<close>

theorem error_record_without_prompt_counterexample:
  "error_records (trace (snd (process_incoming_message
       (demo (Inl (Exception ''out of memory'')) (Inr ''media'')) (demo_bot False [])
       (demo_message ''a red cat'') world0))) = [Do_sd_process_failed (Exception ''out of memory'')] \<and>
   error_records (trace (snd (process_incoming_message
       (demo (Inl (Exception ''out of memory'')) (Inr ''media'')) (demo_bot False [])
       (demo_message ''a blue sky'') world0))) = [Do_sd_process_failed (Exception ''out of memory'')]"
  by (simp add: generation_failure_demo[OF stripped_red_cat] generation_failure_demo[OF stripped_blue_sky])

text \<open>
  C4, amended: when the generation step raises, \<open>process_incoming_message\<close> returns
  normally. It has logged the error in one record of level \<open>ERROR\<close> that carries the
  exception and nothing else; the prompt is only in the \<open>INFO\<close> record \<open>get task\<close> that
  is written for every task before the generation. In between the pipeline was called at
  most twice (the warm-up and the one generation call, never again), and there is neither an
  upload nor a reply. The worker's loop goes on with the next queued message: the failed one
  is not taken up again.
\<close>

theorem generation_failure_dropped:
  assumes "fst (txt2img c self (pipe self) m (snd (now c (log INFO (Get_task m) w)))) = Inl e"
  shows "\<exists>pcs.
           fst (process_incoming_message c self m w) = Inr () \<and>
           trace (snd (process_incoming_message c self m w)) =
             trace w @ [Logged INFO (Get_task m)] @ pcs @ [Logged ERROR (Do_sd_process_failed e)] \<and>
           error_records (trace (snd (process_incoming_message c self m w))) =
             error_records (trace w) @ [Do_sd_process_failed e] \<and>
           length pcs \<le> 2 \<and> (\<forall>ev \<in> set pcs. \<exists>a. ev = Pipe_called a) \<and>
           sd_loop c self (m # queued) w =
             sd_loop c self queued (snd (process_incoming_message c self m w))"
proof -
  obtain t0 w1 where n: "now c (log INFO (Get_task m) w) = (t0, w1)"
    by (cases "now c (log INFO (Get_task m) w)")
  obtain r w2 where g: "txt2img c self (pipe self) m w1 = (r, w2)"
    by (cases "txt2img c self (pipe self) m w1")
  from assms n g have r: "r = Inl e" by simp
  have w1: "trace w1 = trace w @ [Logged INFO (Get_task m)]"
    using n by (auto simp: now_def log_def split: prod.splits)
  obtain pcs where pcs: "trace w2 = trace w1 @ pcs" "length pcs \<le> 2"
      "\<forall>ev \<in> set pcs. \<exists>a. ev = Pipe_called a"
    using txt2img_raises_trace[OF g[unfolded r]] by blast
  have p: "process_incoming_message c self m w = (Inr (), log ERROR (Do_sd_process_failed e) w2)"
    by (simp add: process_incoming_message_def n g r)
  have tr: "trace (snd (process_incoming_message c self m w)) =
          trace w @ [Logged INFO (Get_task m)] @ pcs @ [Logged ERROR (Do_sd_process_failed e)]"
    by (simp add: p log_def pcs(1) w1)
  have er: "error_records (trace (snd (process_incoming_message c self m w))) =
              error_records (trace w) @ [Do_sd_process_failed e]"
    by (simp add: tr error_records_append error_records_pipe_calls[OF pcs(3)])
  have lp: "sd_loop c self (m # queued) w =
              sd_loop c self queued (snd (process_incoming_message c self m w))"
    by (simp add: p)
  have f: "fst (process_incoming_message c self m w) = Inr ()"
    by (simp add: p)
  from f tr er pcs(2,3) lp show ?thesis
    by (intro exI[of _ pcs] conjI)
qed

lemma txt2img_demo_raises:
  "txt2img (demo (Inl e) u) (demo_bot off q) (Some Pipe_handle)
     (demo_message ''a red cat'') \<lparr>trace = tr, outside = t\<rparr>
   = (Inl e, \<lparr>trace = tr @ [Pipe_called (warmup_args ''a red cat''), Pipe_called (four_args ''a red cat'')],
              outside = t + 3 / 2\<rparr>)"
  by (simp add: txt2img_def txt2img_four_def stripped_red_cat call_pipe_def demo_fields demo_bot_fields
        warmup_args_def four_args_def)

theorem generation_failure_dropped_witness:
  "fst (process_incoming_message (demo (Inl (Exception ''out of memory'')) (Inr ''media''))
          (demo_bot False []) (demo_message ''a red cat'') world0) = Inr () \<and>
   trace (snd (process_incoming_message (demo (Inl (Exception ''out of memory'')) (Inr ''media''))
          (demo_bot False []) (demo_message ''a red cat'') world0)) =
     [Logged INFO (Get_task (demo_message ''a red cat'')),
      Pipe_called (warmup_args ''a red cat''), Pipe_called (four_args ''a red cat''),
      Logged ERROR (Do_sd_process_failed (Exception ''out of memory''))]"
proof -
  let ?c = "demo (Inl (Exception ''out of memory'')) (Inr ''media'')"
  have n: "now ?c (log INFO (Get_task (demo_message ''a red cat'')) world0)
             = (0, \<lparr>trace = [Logged INFO (Get_task (demo_message ''a red cat''))], outside = 0\<rparr>)"
    by (simp add: now_def log_def world0_def demo_fields)
  have h: "fst (txt2img ?c (demo_bot False []) (pipe (demo_bot False [])) (demo_message ''a red cat'')
             (snd (now ?c (log INFO (Get_task (demo_message ''a red cat'')) world0))))
           = Inl (Exception ''out of memory'')"
    by (simp add: n demo_bot_fields txt2img_demo_raises)
  have p: "snd (process_incoming_message ?c (demo_bot False []) (demo_message ''a red cat'') world0)
           = \<lparr>trace = [Logged INFO (Get_task (demo_message ''a red cat'')),
                Pipe_called (warmup_args ''a red cat''), Pipe_called (four_args ''a red cat''),
                Logged ERROR (Do_sd_process_failed (Exception ''out of memory''))], outside = 3 / 2\<rparr>"
    by (simp add: process_incoming_message_def now_def log_def world0_def demo_fields
        demo_bot_fields txt2img_demo_raises)
  show ?thesis
    using generation_failure_dropped [OF h, of "[]"] by (simp add: p)
qed

section \<open>The acknowledgment in inline mode\<close>

lemma process_returns_ok: "fst (process c self d w) = Returned a \<Longrightarrow> a = (STATUS_OK, ''OK'')"
  unfolding process_def Let_def
  by (simp split: sum.splits put_result.splits prod.splits if_splits)

lemma generation_failure_returns:
  assumes "fst (txt2img c self (pipe self) m (snd (now c (log INFO (Get_task m) w)))) = Inl e"
  shows "fst (process_incoming_message c self m w) = Inr ()"
proof -
  obtain t0 w1 where n: "now c (log INFO (Get_task m) w) = (t0, w1)"
    by (cases "now c (log INFO (Get_task m) w)")
  obtain r w2 where g: "txt2img c self (pipe self) m w1 = (r, w2)"
    by (cases "txt2img c self (pipe self) m w1")
  from assms n g have "r = Inl e" by simp
  then show ?thesis by (simp add: process_incoming_message_def n g)
qed


text \<open>
  C10: in inline mode, when the generation step raises, \<open>process\<close> returns
  \<open>(STATUS_OK, 'OK')\<close>; and whenever \<open>process\<close> returns, in any mode and after success or
  failure, that is the value it returns.
\<close>

theorem inline_ack_after_generation_failure:
  assumes "\<not> truthy (subprocess (bot_options self))"
    and "from_dict c d = Inr m"
    and "fst (txt2img c self (pipe self) m
           (snd (now c (log INFO (Get_task m) (log INFO (Received_incoming_message m) w))))) = Inl e"
  shows "fst (process c self d w) = Returned (STATUS_OK, ''OK'') \<and>
         (\<forall>d' w' a. fst (process c self d' w') = Returned a \<longrightarrow> a = (STATUS_OK, ''OK''))"
proof -
  obtain r w2 where p: "process_incoming_message c self m (log INFO (Received_incoming_message m) w) = (r, w2)"
    by (cases "process_incoming_message c self m (log INFO (Received_incoming_message m) w)")
  have "fst (process_incoming_message c self m (log INFO (Received_incoming_message m) w)) = Inr ()"
    using assms(3) by (rule generation_failure_returns)
  with p have "r = Inr ()" by simp
  then have "fst (process c self d w) = Returned (STATUS_OK, ''OK'')"
    using assms(1,2) p by (simp add: process_def Let_def)
  moreover have "\<forall>d' w' a. fst (process c self d' w') = Returned a \<longrightarrow> a = (STATUS_OK, ''OK'')"
    by (intro allI impI) (rule process_returns_ok)
  ultimately show ?thesis by (rule conjI)
qed

theorem inline_ack_after_generation_failure_witness:
  "fst (process (demo (Inl (Exception ''out of memory'')) (Inr ''media'')) (demo_bot False [])
          ''a red cat'' world0) = Returned (STATUS_OK, ''OK'')"
proof -
  let ?c = "demo (Inl (Exception ''out of memory'')) (Inr ''media'')"
  let ?m = "demo_message ''a red cat''"
  have 1: "\<not> truthy (subprocess (bot_options (demo_bot False [])))"
    by (simp add: truthy_def demo_bot_fields)
  have 2: "from_dict ?c ''a red cat'' = Inr ?m"
    by (simp add: demo_fields)
  have 3: "fst (txt2img ?c (demo_bot False []) (pipe (demo_bot False [])) ?m
             (snd (now ?c (log INFO (Get_task ?m) (log INFO (Received_incoming_message ?m) world0)))))
           = Inl (Exception ''out of memory'')"
    by (simp add: now_def log_def world0_def demo_fields demo_bot_fields txt2img_demo_raises)
  show ?thesis
    using inline_ack_after_generation_failure [OF 1 2 3] by (rule conjunct1)
qed

section \<open>Too few images, failing uploads and malformed events\<close>

lemma txt2img_demo_three:
  "txt2img (demo (Inr (take 3 four_tiles)) u) (demo_bot off q) (Some Pipe_handle)
     (demo_message ''a red cat'') \<lparr>trace = tr, outside = t\<rparr>
   = (Inr None,
      \<lparr>trace = tr @ [Pipe_called (warmup_args ''a red cat''), Pipe_called (four_args ''a red cat''),
                      Logged ERROR (Not_enough_images 3)],
       outside = t + 3 / 2\<rparr>)"
  by (simp add: txt2img_def txt2img_four_def stripped_red_cat call_pipe_def demo_fields
      demo_bot_fields warmup_args_def four_args_def four_tiles_def log_def)

text \<open>
  C1 at three returned images: \<open>txt2img_four\<close> logs the error and returns \<open>None\<close> without
  raising, and \<open>process_incoming_message\<close> goes on to the delivery: the upload is called
  with no image and a reply is posted.
\<close>

theorem three_images_reply_dispatched:
  "process_incoming_message (demo (Inr (take 3 four_tiles)) (Inr ''media'')) (demo_bot False [])
     (demo_message ''a red cat'') world0 =
     (Inr (),
      \<lparr>trace =
         [Logged INFO (Get_task (demo_message ''a red cat'')),
          Pipe_called (warmup_args ''a red cat''), Pipe_called (four_args ''a red cat''),
          Logged ERROR (Not_enough_images 3),
          Uploaded None, Logged INFO (Media_id ''media''),
          Replied title (reply_content ''a red cat'' ''media'' ''1.5'') (demo_message ''a red cat''),
          Logged INFO (Reply_image ''sent'')],
       outside = 3 / 2\<rparr>)"
  by (simp add: process_incoming_message_def now_def log_def world0_def demo_fields demo_bot_fields
      txt2img_demo_three process_complete_def reply_image_demo)


lemma fewer_than_four_reaches_upload:
  assumes "stripped_content m = Inr pr" and "pipe self = Some h" and "enable_four_images self"
    and "pipe_run c (outside w1) (warmup_args pr) = (Inr warm, out1)"
    and "pipe_run c out1 (four_args pr) = (Inr images, out2)"
    and "length images < 4"
    and "now c (log INFO (Get_task m) w) = (t0, w1)"
  shows "Uploaded None \<in> set (trace (snd (process_incoming_message c self m w)))"
proof -
  let ?w2 = "log ERROR (Not_enough_images (length images))
               (w1\<lparr>trace := trace w1 @ [Pipe_called (warmup_args pr), Pipe_called (four_args pr)],
                    outside := out2\<rparr>)"
  have g: "txt2img c self (pipe self) m w1 = (Inr None, ?w2)"
    using assms(1-6) by (simp add: txt2img_def txt2img_four_def call_pipe_def)
  obtain t1 w3 where n: "now c ?w2 = (t1, w3)" by (cases "now c ?w2")
  then have t3: "trace w3 = trace ?w2" by (auto simp: now_def split: prod.splits)
  have u: "Uploaded None \<in> set (trace (snd (reply_image c None e m w3)))" for e
    by (auto simp: reply_image_def log_def Let_def split: prod.splits sum.splits)
  have "Uploaded None \<in> set (trace (snd (process_complete c
          (Some \<lparr>task_image = None, task_incoming_message = m, elapse_seconds = t1 - t0\<rparr>) w3)))"
    using u[of "t1 - t0"]
    by (auto simp: process_complete_def log_def split: prod.splits sum.splits)
  then show ?thesis
    by (simp add: process_incoming_message_def assms(7) g n)
qed

lemma reply_image_demo_upload_fails:
  "reply_image (demo g (Inl e)) img x m \<lparr>trace = tr, outside = t\<rparr>
     = (Inl e, \<lparr>trace = tr @ [Uploaded img], outside = t\<rparr>)"
  by (simp add: reply_image_def demo_fields)

text \<open>
  C3 at a failing upload: with two messages queued, the generation for the first succeeds
  and its upload raises. Nothing catches the exception: it leaves
  \<open>process_incoming_message\<close> and the worker's loop, and the second message stays in the
  queue, never taken.
\<close>

theorem upload_failure_ends_worker:
  "do_sd_process (demo (Inr four_tiles) (Inl (Exception ''upload failed'')))
     (demo_bot True [demo_message ''a red cat'', demo_message ''a blue sky'']) world0 =
     (Died (Exception ''upload failed''),
      (demo_bot True [demo_message ''a blue sky''])\<lparr>pipe := Some Pipe_handle\<rparr>,
      \<lparr>trace =
         [Logged INFO Do_sd_process, Pipe_created,
          Logged INFO (Get_task (demo_message ''a red cat'')),
          Pipe_called (warmup_args ''a red cat''), Pipe_called (four_args ''a red cat''),
          Uploaded (Some [1024, 1024])],
       outside = 3 / 2\<rparr>)"
proof -
  let ?c = "demo (Inr four_tiles) (Inl (Exception ''upload failed''))"
  have t: "txt2img ?c ((demo_bot True q)\<lparr>pipe := Some Pipe_handle\<rparr>) (Some Pipe_handle)
             (demo_message ''a red cat'') \<lparr>trace = tr, outside = t\<rparr>
           = (Inr (Some [1024, 1024]),
              \<lparr>trace = tr @ [Pipe_called (warmup_args ''a red cat''), Pipe_called (four_args ''a red cat'')],
               outside = t + 3 / 2\<rparr>)" for q tr t
    using txt2img_demo[of "Inl (Exception ''upload failed'')" False q tr t]
    by (simp add: txt2img_def demo_bot_def)
  have p: "process_incoming_message ?c ((demo_bot True q)\<lparr>pipe := Some Pipe_handle\<rparr>)
             (demo_message ''a red cat'') \<lparr>trace = tr, outside = 0\<rparr>
           = (Inl (Exception ''upload failed''),
              \<lparr>trace = tr @ [Logged INFO (Get_task (demo_message ''a red cat'')),
                 Pipe_called (warmup_args ''a red cat''), Pipe_called (four_args ''a red cat''),
                 Uploaded (Some [1024, 1024])], outside = 3 / 2\<rparr>)" for q tr
    by (simp add: process_incoming_message_def now_def log_def demo_fields t process_complete_def
        reply_image_demo_upload_fails)
  show ?thesis
    by (simp add: do_sd_process_def create_pipe_def log_def world0_def demo_fields demo_bot_fields p)
qed

text \<open>
  C5, as stated, fails: for an event that cannot be deserialized, \<open>process\<close> neither logs
  nor returns an acknowledgment; the exception of \<open>from_dict\<close> leaves the handler.
\<close>

theorem malformed_event_counterexample:
  "process (demo (Inr four_tiles) (Inr ''media'')) (demo_bot True []) ''{'' world0 =
     (Raised (Exception ''malformed''), demo_bot True [], world0)"
  by (simp add: process_def demo_fields)

text \<open>
  C5, amended: an event that cannot be deserialized never reaches the queue, and nothing is
  logged or acknowledged for it: \<open>process\<close> ends with the exception that \<open>from_dict\<close>
  raised, the bot and the log unchanged.
\<close>

theorem malformed_event_raises:
  assumes "from_dict c d = Inl e"
  shows "process c self d w = (Raised e, self, w)"
  using assms by (simp add: process_def)

theorem malformed_event_raises_witness:
  "process (demo (Inl (Exception ''out of memory'')) (Inl (Exception ''upload failed'')))
     (demo_bot False []) ''{'' world0 =
     (Raised (Exception ''malformed''), demo_bot False [], world0)"
proof -
  have 1: "from_dict (demo (Inl (Exception ''out of memory'')) (Inl (Exception ''upload failed''))) ''{''
             = Inl (Exception ''malformed'')"
    by (simp add: demo_fields)
  show ?thesis
    using malformed_event_raises [OF 1] by simp
qed

section \<open>The queue bound\<close>

lemma init_bot:
  assumes "init c opts w0 = (Inr b0, w1)"
  shows "enable_four_images b0" and "task_queue b0 = \<lparr>maxsize = 128, items = []\<rparr>"
    and "bot_options b0 = opts"
  using assms by (auto simp: init_def split: if_splits prod.splits sum.splits)

lemma queue_put_bound:
  assumes "queue_put q x block timeout = Enqueued q'"
    and "0 < maxsize q" and "length (items q) \<le> maxsize q"
  shows "maxsize q' = maxsize q \<and> length (items q') \<le> maxsize q'"
  using assms by (auto simp: queue_put_def split: if_splits option.splits)

lemma queue_put_maxsize: "queue_put q x block timeout = Enqueued q' \<Longrightarrow> maxsize q' = maxsize q"
  by (auto simp: queue_put_def split: if_splits option.splits)

lemma process_bot_cases:
  assumes "process c self d w = (r, self', w')"
  shows "self' = self \<or> (\<exists>m q. queue_put (task_queue self) m True None = Enqueued q \<and>
                                 self' = self\<lparr>task_queue := q\<rparr>)"
proof (cases "from_dict c d")
  case (Inl e)
  with assms show ?thesis by (simp add: process_def)
next
  case (Inr m)
  show ?thesis
  proof (cases "truthy (subprocess (bot_options self))")
    case True
    show ?thesis
    proof (cases "queue_put (task_queue self) m True None")
      case (Enqueued q)
      with assms Inr True have "self' = self\<lparr>task_queue := q\<rparr>"
        by (simp add: process_def Let_def)
      with Enqueued show ?thesis by blast
    next
      case Waits
      with assms Inr True show ?thesis by (simp add: process_def Let_def)
    next
      case (Waits_then_Full t)
      with assms Inr True show ?thesis by (simp add: process_def Let_def)
    next
      case Raises_Full
      with assms Inr True show ?thesis by (simp add: process_def Let_def)
    qed
  next
    case False
    obtain r2 w2 where p: "process_incoming_message c self m (log INFO (Received_incoming_message m) w) = (r2, w2)"
      by (cases "process_incoming_message c self m (log INFO (Received_incoming_message m) w)")
    with assms Inr False show ?thesis
      by (cases r2) (simp_all add: process_def Let_def)
  qed
qed

lemma process_bot:
  assumes "process c self d w = (r, self', w')"
  shows "enable_four_images self' = enable_four_images self"
    and "bot_options self' = bot_options self"
    and "pipe self' = pipe self"
    and "maxsize (task_queue self') = maxsize (task_queue self)"
    and "0 < maxsize (task_queue self) \<Longrightarrow> length (items (task_queue self)) \<le> maxsize (task_queue self)
         \<Longrightarrow> length (items (task_queue self')) \<le> maxsize (task_queue self)"
proof -
  from process_bot_cases[OF assms] consider "self' = self"
    | m q where "queue_put (task_queue self) m True None = Enqueued q" "self' = self\<lparr>task_queue := q\<rparr>"
    by blast
  then have "enable_four_images self' = enable_four_images self \<and>
     bot_options self' = bot_options self \<and> pipe self' = pipe self \<and>
     maxsize (task_queue self') = maxsize (task_queue self) \<and>
     (0 < maxsize (task_queue self) \<longrightarrow> length (items (task_queue self)) \<le> maxsize (task_queue self)
         \<longrightarrow> length (items (task_queue self')) \<le> maxsize (task_queue self))"
  proof cases
    case 1
    then show ?thesis by simp
  next
    case 2
    then show ?thesis using queue_put_bound[OF 2(1)] queue_put_maxsize[OF 2(1)] by simp
  qed
  then show "enable_four_images self' = enable_four_images self"
    and "bot_options self' = bot_options self"
    and "pipe self' = pipe self"
    and "maxsize (task_queue self') = maxsize (task_queue self)"
    and "0 < maxsize (task_queue self) \<Longrightarrow> length (items (task_queue self)) \<le> maxsize (task_queue self)
         \<Longrightarrow> length (items (task_queue self')) \<le> maxsize (task_queue self)"
    by simp_all
qed

lemma system_step_inv:
  assumes "bot_inv opts (fst s)"
  shows "bot_inv opts (fst (system_step c s st))"
proof (cases st)
  case (Callback d)
  obtain r b' w' where p: "process c (fst s) d (snd s) = (r, b', w')"
    by (cases "process c (fst s) d (snd s)") auto
  show ?thesis
    using assms process_bot[OF p] by (simp add: system_step_def Callback p bot_inv_def)
next
  case Worker_get
  show ?thesis
    using assms
    by (auto simp: system_step_def Worker_get bot_inv_def queue_get_def split: list.splits)
qed

lemma run_inv:
  assumes "bot_inv opts (fst s)"
  shows "bot_inv opts (fst (run c s steps))"
  using assms
proof (induction steps arbitrary: s)
  case Nil
  then show ?case by (simp add: run_def)
next
  case (Cons st steps)
  have "bot_inv opts (fst (system_step c s st))"
    using Cons.prems by (rule system_step_inv)
  then have "bot_inv opts (fst (run c (system_step c s st) steps))"
    by (rule Cons.IH)
  then show ?case by (simp add: run_def)
qed

lemma init_inv: "init c opts w0 = (Inr b0, w1) \<Longrightarrow> bot_inv opts b0"
  using init_bot[of c opts w0 b0 w1] by (simp add: bot_inv_def)


lemma do_sd_process_flag: "enable_four_images (fst (snd (do_sd_process c self w))) = enable_four_images self"
  by (simp add: do_sd_process_def split: prod.splits sum.splits)

lemma process_waits_when_full:
  assumes "truthy (subprocess (bot_options self))" and "from_dict c d = Inr m"
    and "maxsize (task_queue self) = 128" and "length (items (task_queue self)) = 128"
  shows "process c self d w = (Waiting_in_put, self, log INFO (Received_incoming_message m) w)"
  using assms by (simp add: process_def Let_def queue_put_def)

lemma process_enqueues_with_room:
  assumes "truthy (subprocess (bot_options self))" and "from_dict c d = Inr m"
    and "maxsize (task_queue self) = 128" and "length (items (task_queue self)) < 128"
  shows "process c self d w =
           (Returned (STATUS_OK, ''OK''),
            self\<lparr>task_queue := (task_queue self)\<lparr>items := items (task_queue self) @ [m]\<rparr>\<rparr>,
            log INFO (Received_incoming_message m) w)"
  using assms by (simp add: process_def Let_def queue_put_def)

text \<open>
  C6: from construction on, whatever callbacks arrive and whatever the worker takes, the
  queue never holds more than 128 messages. In offload mode a callback that finds 128
  messages queued waits inside \<open>put\<close>: it is neither rejected nor dropped, nothing changes
  but the log; and once a \<open>get\<close> has taken the oldest message, the same \<open>put\<close> goes through
  and the handler returns its acknowledgment.
\<close>

theorem task_queue_capacity:
  assumes "init c opts w0 = (Inr b0, w1)"
    and "b = fst (run c (b0, w1) steps)"
  shows "length (items (task_queue b)) \<le> 128 \<and>
         (truthy (subprocess opts) \<longrightarrow> from_dict c d = Inr m \<longrightarrow>
          length (items (task_queue b)) = 128 \<longrightarrow>
            process c b d w = (Waiting_in_put, b, log INFO (Received_incoming_message m) w) \<and>
            (\<exists>m0 q. queue_get (task_queue b) = Some (m0, q) \<and>
               process c (b\<lparr>task_queue := q\<rparr>) d w =
                 (Returned (STATUS_OK, ''OK''),
                  b\<lparr>task_queue := q\<lparr>items := items q @ [m]\<rparr>\<rparr>,
                  log INFO (Received_incoming_message m) w)))"
proof -
  have "bot_inv opts (fst (b0, w1))"
    using init_inv[OF assms(1)] by simp
  then have "bot_inv opts (fst (run c (b0, w1) steps))"
    by (rule run_inv)
  then have inv: "bot_inv opts b"
    by (simp only: assms(2))
  then have bound: "length (items (task_queue b)) \<le> 128"
    by (simp add: bot_inv_def)
  have full: "process c b d w = (Waiting_in_put, b, log INFO (Received_incoming_message m) w) \<and>
            (\<exists>m0 q. queue_get (task_queue b) = Some (m0, q) \<and>
               process c (b\<lparr>task_queue := q\<rparr>) d w =
                 (Returned (STATUS_OK, ''OK''),
                  b\<lparr>task_queue := q\<lparr>items := items q @ [m]\<rparr>\<rparr>,
                  log INFO (Received_incoming_message m) w))"
    if t: "truthy (subprocess opts)" and f: "from_dict c d = Inr m"
      and l: "length (items (task_queue b)) = 128"
  proof -
    have t': "truthy (subprocess (bot_options b))" and mx: "maxsize (task_queue b) = 128"
      using inv t by (simp_all add: bot_inv_def)
    have 1: "process c b d w = (Waiting_in_put, b, log INFO (Received_incoming_message m) w)"
      using t' f mx l by (rule process_waits_when_full)
    obtain m0 ms where ms: "items (task_queue b) = m0 # ms"
      using l by (cases "items (task_queue b)") auto
    let ?q = "(task_queue b)\<lparr>items := ms\<rparr>"
    have g: "queue_get (task_queue b) = Some (m0, ?q)"
      by (simp add: queue_get_def ms)
    have "process c (b\<lparr>task_queue := ?q\<rparr>) d w =
            (Returned (STATUS_OK, ''OK''),
             b\<lparr>task_queue := ?q\<rparr>\<lparr>task_queue := (task_queue (b\<lparr>task_queue := ?q\<rparr>))
                \<lparr>items := items (task_queue (b\<lparr>task_queue := ?q\<rparr>)) @ [m]\<rparr>\<rparr>,
             log INFO (Received_incoming_message m) w)"
      using t' f mx l ms by (intro process_enqueues_with_room) simp_all
    then have 2: "process c (b\<lparr>task_queue := ?q\<rparr>) d w =
            (Returned (STATUS_OK, ''OK''), b\<lparr>task_queue := ?q\<lparr>items := items ?q @ [m]\<rparr>\<rparr>,
             log INFO (Received_incoming_message m) w)"
      by simp
    from 1 g 2 show ?thesis by blast
  qed
  from bound full show ?thesis by blast
qed

lemma init_demo_offload:
  "init (demo g u) \<lparr>subprocess = Some True\<rparr> world0 = (Inr (demo_bot True []), world0)"
  by (simp add: init_def truthy_def demo_bot_def)

lemma run_Cons: "run c s (st # steps) = run c (system_step c s st) steps"
  by (simp add: run_def)

lemma callback_demo_offload:
  assumes "length q < 128" and "s \<noteq> ''{''"
  shows "fst (system_step (demo g u) (demo_bot True q, w) (Callback s)) = demo_bot True (q @ [demo_message s])"
  using assms
  by (simp add: system_step_def process_def Let_def demo_fields demo_bot_fields truthy_def
      queue_put_def)

lemma run_callbacks_demo:
  assumes "length q + n \<le> 128" and "s \<noteq> ''{''"
  shows "fst (run (demo g u) (demo_bot True q, w) (replicate n (Callback s)))
           = demo_bot True (q @ replicate n (demo_message s))"
  using assms(1)
proof (induction n arbitrary: q w)
  case 0
  then show ?case by (simp add: run_def)
next
  case (Suc n)
  obtain b' w' where st: "system_step (demo g u) (demo_bot True q, w) (Callback s) = (b', w')"
    by (cases "system_step (demo g u) (demo_bot True q, w) (Callback s)")
  have "length q < 128" using Suc.prems by simp
  then have b': "b' = demo_bot True (q @ [demo_message s])"
    using callback_demo_offload[of q s g u w] assms(2) st by simp
  have "fst (run (demo g u) (demo_bot True (q @ [demo_message s]), w') (replicate n (Callback s)))
          = demo_bot True ((q @ [demo_message s]) @ replicate n (demo_message s))"
    using Suc.prems by (intro Suc.IH) simp
  then show ?case
    by (simp add: run_Cons st b' replicate_app_Cons_same)
qed

theorem task_queue_capacity_witness:
  "length (items (task_queue (fst (run (demo (Inr four_tiles) (Inr ''media'')) (demo_bot True [], world0)
             (replicate 128 (Callback ''a red cat'')))))) = 128 \<and>
   process (demo (Inr four_tiles) (Inr ''media''))
     (fst (run (demo (Inr four_tiles) (Inr ''media'')) (demo_bot True [], world0)
             (replicate 128 (Callback ''a red cat''))))
     ''a blue sky'' world0 =
     (Waiting_in_put,
      fst (run (demo (Inr four_tiles) (Inr ''media'')) (demo_bot True [], world0)
             (replicate 128 (Callback ''a red cat''))),
      log INFO (Received_incoming_message (demo_message ''a blue sky'')) world0)"
proof -
  let ?c = "demo (Inr four_tiles) (Inr ''media'')"
  let ?b = "fst (run ?c (demo_bot True [], world0) (replicate 128 (Callback ''a red cat'')))"
  have r: "?b = demo_bot True (replicate 128 (demo_message ''a red cat''))"
    using run_callbacks_demo[of "[]" 128 "''a red cat''" "Inr four_tiles" "Inr ''media''" world0]
    by simp
  have l: "length (items (task_queue ?b)) = 128"
    by (simp add: r demo_bot_fields)
  have t: "truthy (subprocess \<lparr>subprocess = Some True\<rparr>)"
    by (simp add: truthy_def)
  have f: "from_dict ?c ''a blue sky'' = Inr (demo_message ''a blue sky'')"
    by (simp add: demo_fields)
  show ?thesis
    using task_queue_capacity [OF init_demo_offload refl, of "Inr four_tiles" "Inr ''media''"
        "replicate 128 (Callback ''a red cat'')" "''a blue sky''" "demo_message ''a blue sky''" world0]
      l t f
    by blast
qed

section \<open>The grid path\<close>

lemma grid_only_refl: "grid_only w w"
  by simp

lemma grid_only_trans:
  assumes "grid_only w w1" and "grid_only w1 w2"
  shows "grid_only w w2"
proof -
  from assms(1) obtain e1 where 1: "trace w1 = trace w @ e1" "\<forall>ev \<in> set e1. \<not> single_image_call ev"
    by blast
  from assms(2) obtain e2 where 2: "trace w2 = trace w1 @ e2" "\<forall>ev \<in> set e2. \<not> single_image_call ev"
    by blast
  have "trace w2 = trace w @ (e1 @ e2)" using 1(1) 2(1) by simp
  moreover have "\<forall>ev \<in> set (e1 @ e2). \<not> single_image_call ev" using 1(2) 2(2) by auto
  ultimately show ?thesis by blast
qed

lemma grid_only_event:
  assumes "trace w' = trace w @ [ev]" and "\<not> single_image_call ev"
  shows "grid_only w w'"
  using assms by (intro exI[of _ "[ev]"]) simp

lemma grid_only_same:
  assumes "trace w' = trace w"
  shows "grid_only w w'"
  using assms by simp

lemma grid_only_log: "grid_only w (log lvl msg w)"
  by (rule grid_only_event[of _ _ "Logged lvl msg"]) (simp_all add: log_def)

lemma grid_only_now: "grid_only w (snd (now c w))"
  by (rule grid_only_same) (simp add: now_def split: prod.splits)

lemma grid_only_call_pipe:
  assumes "\<not> single_image_call (Pipe_called a)"
  shows "grid_only w (snd (call_pipe c p a w))"
proof (cases p)
  case None
  then show ?thesis by (simp add: call_pipe_def)
next
  case (Some h)
  have "trace (snd (call_pipe c p a w)) = trace w @ [Pipe_called a]"
    by (simp add: call_pipe_def Some split: prod.splits)
  then show ?thesis using assms by (rule grid_only_event)
qed

lemma warmup_not_single: "\<not> single_image_call (Pipe_called (warmup_args pr))"
  by (simp add: warmup_args_def)

lemma four_not_single: "\<not> single_image_call (Pipe_called (four_args pr))"
  by (simp add: four_args_def)

lemma grid_only_txt2img_four: "grid_only w (snd (txt2img_four c p m w))"
proof (cases "stripped_content m")
  case (Inl e)
  then show ?thesis by (simp add: txt2img_four_def)
next
  case (Inr pr)
  obtain r1 w1 where c1: "call_pipe c p (warmup_args pr) w = (r1, w1)"
    by (cases "call_pipe c p (warmup_args pr) w")
  have "grid_only w (snd (call_pipe c p (warmup_args pr) w))"
    by (rule grid_only_call_pipe) (rule warmup_not_single)
  then have g1: "grid_only w w1"
    by (simp add: c1)
  show ?thesis
  proof (cases r1)
    case (Inl e)
    then show ?thesis using g1 by (simp add: txt2img_four_def Inr c1)
  next
    case warm: (Inr warm)
    obtain r2 w2 where c2: "call_pipe c p (four_args pr) w1 = (r2, w2)"
      by (cases "call_pipe c p (four_args pr) w1")
    have "grid_only w1 (snd (call_pipe c p (four_args pr) w1))"
      by (rule grid_only_call_pipe) (rule four_not_single)
    then have g2: "grid_only w1 w2"
      by (simp add: c2)
    have g12: "grid_only w w2" using g1 g2 by (rule grid_only_trans)
    show ?thesis
    proof (cases r2)
      case (Inl e)
      then show ?thesis using g12 by (simp add: txt2img_four_def Inr c1 warm c2)
    next
      case images: (Inr images)
      show ?thesis
      proof (cases "length images < 4")
        case True
        have "grid_only w (log ERROR (Not_enough_images (length images)) w2)"
          using g12 grid_only_log by (rule grid_only_trans)
        then show ?thesis using True by (simp add: txt2img_four_def Inr c1 warm c2 images)
      next
        case False
        then show ?thesis using g12 by (simp add: txt2img_four_def Inr c1 warm c2 images)
      qed
    qed
  qed
qed


lemma delivery_not_single:
  "\<not> single_image_call (Uploaded img)" "\<not> single_image_call (Replied ti body m)"
  "\<not> single_image_call (Logged lvl msg)" "\<not> single_image_call Pipe_created"
  by simp_all

lemma grid_only_reply_image: "grid_only w (snd (reply_image c img e m w))"
proof -
  obtain r out where u: "upload_to_dingtalk c (outside w) img = (r, out)"
    by (cases "upload_to_dingtalk c (outside w) img")
  let ?w0 = "w\<lparr>trace := trace w @ [Uploaded img], outside := out\<rparr>"
  have g0: "grid_only w ?w0"
    by (rule grid_only_event[of _ _ "Uploaded img"]) simp_all
  show ?thesis
  proof (cases r)
    case (Inl e0)
    then show ?thesis using g0 by (simp add: reply_image_def u)
  next
    case (Inr media_id)
    let ?w1 = "log INFO (Media_id media_id) ?w0"
    have g1: "grid_only w ?w1"
      using g0 grid_only_log by (rule grid_only_trans)
    show ?thesis
    proof (cases "stripped_content m")
      case (Inl e1)
      then show ?thesis using g1 by (simp add: reply_image_def u Inr Let_def)
    next
      case p: (Inr p)
      let ?body = "reply_content p media_id (str_round3 (str_float c) e)"
      obtain r2 out2 where rm: "reply_markdown c (outside ?w1) title ?body m = (r2, out2)"
        by (cases "reply_markdown c (outside ?w1) title ?body m")
      let ?w2 = "?w1\<lparr>trace := trace ?w1 @ [Replied title ?body m], outside := out2\<rparr>"
      have "grid_only ?w1 ?w2"
        by (rule grid_only_event[of _ _ "Replied title ?body m"]) simp_all
      with g1 have "grid_only w ?w2" by (rule grid_only_trans)
      moreover have "snd (reply_image c img e m w) = ?w2"
        using rm by (simp add: reply_image_def u Inr p Let_def)
      ultimately show ?thesis by simp
    qed
  qed
qed

lemma grid_only_process_complete: "grid_only w (snd (process_complete c task w))"
proof (cases task)
  case None
  then show ?thesis by (simp add: process_complete_def)
next
  case (Some t)
  obtain r w1 where ri: "reply_image c (task_image t) (elapse_seconds t) (task_incoming_message t) w = (r, w1)"
    by (cases "reply_image c (task_image t) (elapse_seconds t) (task_incoming_message t) w")
  have "grid_only w (snd (reply_image c (task_image t) (elapse_seconds t) (task_incoming_message t) w))"
    by (rule grid_only_reply_image)
  then have g1: "grid_only w w1"
    by (simp add: ri)
  show ?thesis
  proof (cases r)
    case (Inl e)
    then show ?thesis using g1 by (simp add: process_complete_def Some ri)
  next
    case (Inr response)
    have "grid_only w (log INFO (Reply_image response) w1)"
      using g1 grid_only_log by (rule grid_only_trans)
    then show ?thesis by (simp add: process_complete_def Some ri Inr)
  qed
qed

lemma grid_only_process_incoming_message:
  assumes "enable_four_images self"
  shows "grid_only w (snd (process_incoming_message c self m w))"
proof -
  obtain t0 w1 where n: "now c (log INFO (Get_task m) w) = (t0, w1)"
    by (cases "now c (log INFO (Get_task m) w)")
  have "grid_only (log INFO (Get_task m) w) (snd (now c (log INFO (Get_task m) w)))"
    by (rule grid_only_now)
  then have "grid_only (log INFO (Get_task m) w) w1" by (simp add: n)
  with grid_only_log have g1: "grid_only w w1" by (rule grid_only_trans)
  obtain r w2 where g: "txt2img_four c (pipe self) m w1 = (r, w2)"
    by (cases "txt2img_four c (pipe self) m w1")
  have "grid_only w1 (snd (txt2img_four c (pipe self) m w1))"
    by (rule grid_only_txt2img_four)
  then have "grid_only w1 w2" by (simp add: g)
  with g1 have g2: "grid_only w w2" by (rule grid_only_trans)
  show ?thesis
  proof (cases r)
    case (Inl e)
    have "grid_only w (log ERROR (Do_sd_process_failed e) w2)"
      using g2 grid_only_log by (rule grid_only_trans)
    then show ?thesis
      using assms by (simp add: process_incoming_message_def n txt2img_def g Inl)
  next
    case (Inr image_content)
    obtain t1 w3 where n2: "now c w2 = (t1, w3)" by (cases "now c w2")
    have "grid_only w2 (snd (now c w2))" by (rule grid_only_now)
    then have "grid_only w2 w3" by (simp add: n2)
    with g2 have g3: "grid_only w w3" by (rule grid_only_trans)
    let ?task = "Some \<lparr>task_image = image_content, task_incoming_message = m,
                        elapse_seconds = t1 - t0\<rparr>"
    have "grid_only w3 (snd (process_complete c ?task w3))"
      by (rule grid_only_process_complete)
    with g3 have "grid_only w (snd (process_complete c ?task w3))" by (rule grid_only_trans)
    then show ?thesis
      using assms by (simp add: process_incoming_message_def n txt2img_def g Inr n2)
  qed
qed


lemma grid_only_process:
  assumes "enable_four_images self"
  shows "grid_only w (snd (snd (process c self d w)))"
proof (cases "from_dict c d")
  case (Inl e)
  then show ?thesis by (simp add: process_def)
next
  case (Inr m)
  let ?w1 = "log INFO (Received_incoming_message m) w"
  have g1: "grid_only w ?w1" by (rule grid_only_log)
  show ?thesis
  proof (cases "truthy (subprocess (bot_options self))")
    case True
    have "snd (snd (process c self d w)) = ?w1"
      using Inr True by (simp add: process_def Let_def split: put_result.splits)
    then show ?thesis using g1 by simp
  next
    case False
    obtain r2 w2 where p: "process_incoming_message c self m ?w1 = (r2, w2)"
      by (cases "process_incoming_message c self m ?w1")
    have "grid_only ?w1 (snd (process_incoming_message c self m ?w1))"
      using assms by (rule grid_only_process_incoming_message)
    then have "grid_only ?w1 w2" by (simp add: p)
    with g1 have g2: "grid_only w w2" by (rule grid_only_trans)
    have "snd (snd (process c self d w)) = w2"
      using Inr False p by (cases r2) (simp_all add: process_def Let_def)
    then show ?thesis using g2 by simp
  qed
qed

lemma grid_only_system_step:
  assumes "enable_four_images (fst s)"
  shows "grid_only (snd s) (snd (system_step c s st))"
proof (cases st)
  case (Callback d)
  have "grid_only (snd s) (snd (snd (process c (fst s) d (snd s))))"
    using assms by (rule grid_only_process)
  then show ?thesis by (simp add: system_step_def Callback)
next
  case Worker_get
  show ?thesis
  proof (cases "queue_get (task_queue (fst s))")
    case None
    then show ?thesis by (simp add: system_step_def Worker_get)
  next
    case (Some mq)
    obtain m q where mq: "mq = (m, q)" by (cases mq)
    have "enable_four_images ((fst s)\<lparr>pipe := Some Pipe_handle\<rparr>)"
      using assms by simp
    then have "grid_only (snd s)
        (snd (process_incoming_message c ((fst s)\<lparr>pipe := Some Pipe_handle\<rparr>) m (snd s)))"
      by (rule grid_only_process_incoming_message)
    then show ?thesis by (simp add: system_step_def Worker_get Some mq)
  qed
qed

lemma grid_only_run:
  assumes "bot_inv opts (fst s)"
  shows "grid_only (snd s) (snd (run c s steps))"
  using assms
proof (induction steps arbitrary: s)
  case Nil
  then show ?case by (simp add: run_def)
next
  case (Cons st steps)
  have e: "enable_four_images (fst s)"
    using Cons.prems by (simp add: bot_inv_def)
  have 1: "grid_only (snd s) (snd (system_step c s st))"
    using e by (rule grid_only_system_step)
  have "bot_inv opts (fst (system_step c s st))"
    using Cons.prems by (rule system_step_inv)
  then have 2: "grid_only (snd (system_step c s st)) (snd (run c (system_step c s st) steps))"
    by (rule Cons.IH)
  have "grid_only (snd s) (snd (run c (system_step c s st) steps))"
    using 1 2 by (rule grid_only_trans)
  then show ?case by (simp add: run_def)
qed

lemma grid_only_sd_loop:
  assumes "enable_four_images self"
  shows "grid_only w (snd (snd (sd_loop c self ms w)))"
proof (induction ms arbitrary: w)
  case Nil
  show ?case by simp
next
  case (Cons m ms)
  obtain r w1 where p: "process_incoming_message c self m w = (r, w1)"
    by (cases "process_incoming_message c self m w")
  have "grid_only w (snd (process_incoming_message c self m w))"
    using assms by (rule grid_only_process_incoming_message)
  then have g1: "grid_only w w1" by (simp add: p)
  show ?case
  proof (cases r)
    case (Inl e)
    then show ?thesis using g1 by (simp add: p)
  next
    case (Inr u)
    have "grid_only w1 (snd (snd (sd_loop c self ms w1)))" by (rule Cons.IH)
    with g1 have "grid_only w (snd (snd (sd_loop c self ms w1)))" by (rule grid_only_trans)
    then show ?thesis by (simp add: p Inr)
  qed
qed

lemma grid_only_do_sd_process:
  assumes "enable_four_images self"
  shows "grid_only w (snd (snd (do_sd_process c self w)))"
proof -
  let ?w0 = "log INFO Do_sd_process w"
  obtain r out where f: "from_pretrained c (outside ?w0) = (r, out)"
    by (cases "from_pretrained c (outside ?w0)")
  let ?w1 = "?w0\<lparr>trace := trace ?w0 @ [Pipe_created], outside := out\<rparr>"
  have cp: "create_pipe c ?w0 = (r, ?w1)"
    by (simp add: create_pipe_def f)
  have "grid_only ?w0 ?w1"
    by (rule grid_only_event[of _ _ Pipe_created]) simp_all
  with grid_only_log have g1: "grid_only w ?w1" by (rule grid_only_trans)
  show ?thesis
  proof (cases r)
    case (Inl e)
    then show ?thesis using g1 by (simp add: do_sd_process_def cp)
  next
    case (Inr p)
    obtain r2 left w2 where l: "sd_loop c (self\<lparr>pipe := Some p\<rparr>) (items (task_queue self)) ?w1 = (r2, left, w2)"
      by (cases "sd_loop c (self\<lparr>pipe := Some p\<rparr>) (items (task_queue self)) ?w1") auto
    have "enable_four_images (self\<lparr>pipe := Some p\<rparr>)" using assms by simp
    then have "grid_only ?w1 (snd (snd (sd_loop c (self\<lparr>pipe := Some p\<rparr>) (items (task_queue self)) ?w1)))"
      by (rule grid_only_sd_loop)
    then have "grid_only ?w1 w2" by (simp add: l)
    with g1 have "grid_only w w2" by (rule grid_only_trans)
    then show ?thesis by (simp add: do_sd_process_def cp Inr l)
  qed
qed


lemma grid_only_keeps:
  assumes "grid_only w w'" and "ev \<in> set (trace w)"
  shows "ev \<in> set (trace w')"
  using assms by auto

lemma txt2img_four_calls_four:
  assumes "stripped_content m = Inr pr"
    and "pipe_run c (outside w) (warmup_args pr) = (Inr warm, out)"
  shows "Pipe_called (four_args pr) \<in> set (trace (snd (txt2img_four c (Some h) m w)))"
proof -
  let ?w1 = "w\<lparr>trace := trace w @ [Pipe_called (warmup_args pr)], outside := out\<rparr>"
  obtain r2 out2 where r2: "pipe_run c out (four_args pr) = (r2, out2)"
    by (cases "pipe_run c out (four_args pr)")
  let ?w2 = "?w1\<lparr>trace := trace ?w1 @ [Pipe_called (four_args pr)], outside := out2\<rparr>"
  have c1: "call_pipe c (Some h) (warmup_args pr) w = (Inr warm, ?w1)"
    by (simp add: call_pipe_def assms(2))
  have c2: "call_pipe c (Some h) (four_args pr) ?w1 = (r2, ?w2)"
    by (simp add: call_pipe_def r2)
  show ?thesis
  proof (cases r2)
    case (Inl e)
    then show ?thesis by (simp add: txt2img_four_def assms(1) c1 c2)
  next
    case (Inr images)
    then show ?thesis by (simp add: txt2img_four_def assms(1) c1 c2 log_def)
  qed
qed

lemma process_incoming_message_after_txt2img:
  assumes "enable_four_images self"
  shows "grid_only (snd (txt2img_four c (pipe self) m (snd (now c (log INFO (Get_task m) w)))))
           (snd (process_incoming_message c self m w))"
proof -
  obtain t0 w1 where n: "now c (log INFO (Get_task m) w) = (t0, w1)"
    by (cases "now c (log INFO (Get_task m) w)")
  obtain r w2 where g: "txt2img_four c (pipe self) m w1 = (r, w2)"
    by (cases "txt2img_four c (pipe self) m w1")
  have "grid_only w2 (snd (process_incoming_message c self m w))"
  proof (cases r)
    case (Inl e)
    have "grid_only w2 (log ERROR (Do_sd_process_failed e) w2)" by (rule grid_only_log)
    then show ?thesis
      using assms by (simp add: process_incoming_message_def n txt2img_def g Inl)
  next
    case (Inr image_content)
    obtain t1 w3 where n2: "now c w2 = (t1, w3)" by (cases "now c w2")
    have "grid_only w2 (snd (now c w2))" by (rule grid_only_now)
    then have g3: "grid_only w2 w3" by (simp add: n2)
    let ?task = "Some \<lparr>task_image = image_content, task_incoming_message = m,
                        elapse_seconds = t1 - t0\<rparr>"
    have "grid_only w3 (snd (process_complete c ?task w3))"
      by (rule grid_only_process_complete)
    with g3 have "grid_only w2 (snd (process_complete c ?task w3))" by (rule grid_only_trans)
    then show ?thesis
      using assms by (simp add: process_incoming_message_def n txt2img_def g Inr n2)
  qed
  then show ?thesis by (simp add: n g)
qed

lemma four_call_made:
  assumes "enable_four_images self" and "pipe self = Some h"
    and "stripped_content m = Inr pr"
    and "pipe_run c (outside (snd (now c (log INFO (Get_task m) w)))) (warmup_args pr) = (Inr warm, out)"
  shows "Pipe_called (four_args pr) \<in> set (trace (snd (process_incoming_message c self m w)))"
proof -
  let ?w1 = "snd (now c (log INFO (Get_task m) w))"
  have "Pipe_called (four_args pr) \<in> set (trace (snd (txt2img_four c (Some h) m ?w1)))"
    using assms(3,4) by (rule txt2img_four_calls_four)
  then have 1: "Pipe_called (four_args pr) \<in> set (trace (snd (txt2img_four c (pipe self) m ?w1)))"
    by (simp only: assms(2))
  have 2: "grid_only (snd (txt2img_four c (pipe self) m ?w1))
             (snd (process_incoming_message c self m w))"
    using assms(1) by (rule process_incoming_message_after_txt2img)
  from 2 1 show ?thesis by (rule grid_only_keeps)
qed

text \<open>
  C9: the constructor sets \<open>_enable_four_images\<close> to \<open>True\<close> and nothing changes it.
  So over any callbacks and worker steps after the construction, and in the worker's
  \<open>do_sd_process\<close>, the trace grows by no single-image call of the pipeline: \<open>txt2img_one\<close>
  is never run. Every message that is processed with a pipeline at hand, and whose warm-up
  call returns, leads to the four-image call for its prompt; and \<open>txt2img\<close> is
  \<open>txt2img_four\<close>.
\<close>

theorem grid_mode_always:
  assumes "init c opts w0 = (Inr b0, w1)"
    and "b = fst (run c (b0, w1) steps)"
  shows "enable_four_images b0 \<and> enable_four_images b \<and>
         grid_only w1 (snd (run c (b0, w1) steps)) \<and>
         grid_only w (snd (snd (do_sd_process c b w))) \<and>
         (stripped_content m = Inr pr \<longrightarrow>
          pipe_run c (outside (snd (now c (log INFO (Get_task m) w)))) (warmup_args pr) = (Inr warm, out) \<longrightarrow>
            Pipe_called (four_args pr) \<in>
              set (trace (snd (process_incoming_message c (b\<lparr>pipe := Some h\<rparr>) m w)))) \<and>
         txt2img c b p m w = txt2img_four c p m w"
proof -
  have i0: "bot_inv opts (fst (b0, w1))"
    using init_inv[OF assms(1)] by simp
  then have 0: "enable_four_images b0"
    by (simp add: bot_inv_def)
  have "bot_inv opts (fst (run c (b0, w1) steps))"
    using i0 by (rule run_inv)
  then have 1: "enable_four_images b"
    by (simp add: assms(2) bot_inv_def)
  have "grid_only (snd (b0, w1)) (snd (run c (b0, w1) steps))"
    using i0 by (rule grid_only_run)
  then have 2: "grid_only w1 (snd (run c (b0, w1) steps))"
    by simp
  have 3: "grid_only w (snd (snd (do_sd_process c b w)))"
    using 1 by (rule grid_only_do_sd_process)
  have 4: "Pipe_called (four_args pr) \<in>
             set (trace (snd (process_incoming_message c (b\<lparr>pipe := Some h\<rparr>) m w)))"
    if "stripped_content m = Inr pr"
      and "pipe_run c (outside (snd (now c (log INFO (Get_task m) w)))) (warmup_args pr) = (Inr warm, out)"
  proof -
    have "enable_four_images (b\<lparr>pipe := Some h\<rparr>)" using 1 by simp
    moreover have "pipe (b\<lparr>pipe := Some h\<rparr>) = Some h" by simp
    ultimately show ?thesis using that by (rule four_call_made)
  qed
  have 5: "txt2img c b p m w = txt2img_four c p m w"
    using 1 by (simp add: txt2img_def)
  from 0 1 2 3 4 5 show ?thesis by blast
qed

theorem grid_mode_always_witness:
  "(\<exists>evs. trace (snd (run (demo (Inr four_tiles) (Inr ''media'')) (demo_bot True [], world0)
                       [Callback ''a red cat'', Worker_get])) = trace world0 @ evs \<and>
          (\<forall>ev \<in> set evs. \<not> single_image_call ev)) \<and>
   Pipe_called (four_args ''a red cat'') \<in>
     set (trace (snd (process_incoming_message (demo (Inr four_tiles) (Inr ''media''))
            ((fst (run (demo (Inr four_tiles) (Inr ''media'')) (demo_bot True [], world0)
                    [Callback ''a red cat'', Worker_get]))\<lparr>pipe := Some Pipe_handle\<rparr>)
            (demo_message ''a red cat'') world0)))"
proof -
  let ?c = "demo (Inr four_tiles) (Inr ''media'')"
  have w: "pipe_run ?c (outside (snd (now ?c (log INFO (Get_task (demo_message ''a red cat'')) world0))))
             (warmup_args ''a red cat'') = (Inr [tile (0, 0, 0)], 3 / 4)"
    by (simp add: now_def log_def world0_def demo_fields warmup_args_def)
  show ?thesis
    using grid_mode_always [OF init_demo_offload refl,
        where steps = "[Callback ''a red cat'', Worker_get]" and m = "demo_message ''a red cat''"
          and pr = "''a red cat''" and w = world0 and h = Pipe_handle]
      stripped_red_cat w
    by blast
qed

end
